theory Spec2Isabelle
  imports Main
begin

section \<open>The font plugin of \<open>src/src/index.js\<close>: errors, environment and world\<close>

text \<open>
  Every \<open>throw\<close> and every rejected promise of the source is a value of \<open>error\<close>, named
  by the JavaScript class (or the system error code) that the source raises:
  \<^item> \<open>TypeError\<close>: a property read or a call on \<open>null\<close>/\<open>undefined\<close>
    (\<open>css.match(regex).map\<close>, \<open>fontUrl.match(...)[1]\<close>, \<open>Object.keys(null)\<close>), and an
    argument of the wrong type (\<open>hash.update(null)\<close>, \<open>fs.readFileSync(undefined)\<close>);
  \<^item> \<open>SyntaxError\<close>: \<open>JSON.parse\<close> on a text that is not JSON;
  \<^item> \<open>NeonError\<close>: \<open>neon.decode\<close> on a text that is not NEON;
  \<^item> \<open>ENOENT\<close>: \<open>fs.readFileSync\<close> on a path that does not exist;
  \<^item> \<open>AxiosError\<close>: the promise of \<open>axios(...)\<close> rejected (transport failure or a status
    outside 2xx).

  \<open>UnhandledRejection\<close> is no error that a caller receives: it stands for the end of the
  process, when Node raises a rejection that nothing handles as an uncaught exception.
\<close>

datatype error = TypeError | SyntaxError | NeonError | ENOENT | AxiosError | UnhandledRejection

text \<open>
  Node's mode for a rejected promise that has no handler when the event loop is idle
  (\<open>--unhandled-rejections\<close>): \<open>Warn\<close> prints a warning and goes on (the default before
  Node 15), \<open>Throw\<close> ends the process (the default from Node 15).
\<close>

datatype policy = Warn | Throw

text \<open>
  What the source takes from its libraries and its runtime is a parameter of the model: the
  SHA-1 hex digest of \<open>crypto\<close>, the function from a key to a file path that
  \<open>findCacheDir\<close> returns (\<open>thunk: true\<close>), the remote server behind \<open>axios\<close>, as a
  function from the requested URL and the \<open>User-Agent\<close> header to the response body
  (\<open>None\<close>: the request fails), the regular expressions of the runtime
  (\<open>text.match(new RegExp(source))\<close>, by the first group of the match as a text:
  \<open>Inl SyntaxError\<close> when the source is no regular expression, \<open>Inr None\<close> when nothing
  matches), the text that Node decodes from bytes read as UTF-8 (\<open>buffer.toString()\<close>,
  \<open>fs.readFileSync(file, 'utf8')\<close>; a text is kept as the string of its characters), and
  the mode for unhandled rejections.
\<close>

record env =
  sha1_hex :: "string \<Rightarrow> string"
  cache_file :: "string \<Rightarrow> string"
  http_get :: "string \<Rightarrow> string option \<Rightarrow> string option"
  regexp_match :: "string \<Rightarrow> string \<Rightarrow> error + string option"
  utf8_text :: "string \<Rightarrow> string"
  unhandled :: policy

subsection \<open>\<open>getCacheKey\<close>\<close>

text \<open>
  \<open>requestUrl\<close> can be \<open>null\<close> (\<open>createRequestStrings\<close> returns \<open>null\<close> entries), and
  \<open>hash.update(null)\<close> throws a \<open>TypeError\<close>.
\<close>

fun getCacheKey :: "env \<Rightarrow> string option \<Rightarrow> string \<Rightarrow> error + string" where
  "getCacheKey e None format = Inl TypeError"
| "getCacheKey e (Some requestUrl) format = Inr (format @ ''-'' @ sha1_hex e requestUrl)"

subsection \<open>Settings and \<open>createRequestStrings\<close>\<close>

text \<open>
  \<open>this.options\<close>, once resolved, as the methods below read it. A font descriptor's fields
  can be missing (\<open>None\<close>): the source tests \<open>item.family\<close>, \<open>item.variants\<close> and
  \<open>item.subsets\<close> for truthiness, and an empty string is falsy while an empty array is
  truthy. \<open>formatAgents\<close> is an object, kept as an association list.
\<close>

record font =
  family :: "string option"
  variants :: "string list option"
  subsets :: "string list option"

record options =
  fonts :: "font list"
  formats :: "string list"
  formatAgents :: "(string \<times> string) list"
  chunkName :: string
  encode :: bool
  cache :: bool

text \<open>\<open>Array.prototype.join\<close> on an array of strings.\<close>

fun join :: "string \<Rightarrow> string list \<Rightarrow> string" where
  "join sep [] = []"
| "join sep [x] = x"
| "join sep (x # y # ys) = x @ sep @ join sep (y # ys)"

text \<open>
  The class \<open>\s\<close> of a regular expression, on 8-bit characters: tab, line feed, vertical
  tab, form feed, carriage return, space and the no-break space.
\<close>

definition is_space :: "char \<Rightarrow> bool" where
  "is_space c \<longleftrightarrow> c \<in> set [CHR 0x09, CHR 0x0A, CHR 0x0B, CHR 0x0C, CHR 0x0D, CHR 0x20, CHR 0xA0]"

text \<open>The body of the arrow function of \<open>createRequestStrings\<close>; \<open>None\<close> is \<open>null\<close>.\<close>

definition requestString_of :: "font \<Rightarrow> string option" where
  "requestString_of item =
     (case family item of
        None \<Rightarrow> None
      | Some fam \<Rightarrow>
          if fam = [] then None
          else Some (''https://fonts.googleapis.com/css?family=''
                 @ map (\<lambda>c. if is_space c then CHR ''+'' else c) fam
                 @ (case variants item of None \<Rightarrow> [] | Some vs \<Rightarrow> '':'' @ join '','' vs)
                 @ (case subsets item of None \<Rightarrow> [] | Some ss \<Rightarrow> ''&subset='' @ join '','' ss)))"

definition createRequestStrings :: "options \<Rightarrow> string option list" where
  "createRequestStrings opts = map requestString_of (fonts opts)"

subsection \<open>The disk cache\<close>

text \<open>
  The world is the cache directory (a map from file paths to the bytes of the file) and the
  trace of what the plugin did to the disk and to the network, in order.
\<close>

datatype event =
    FsExists string
  | FsRead string
  | FsWrite string string
  | HttpGet string "string option"

record world =
  disk :: "string \<Rightarrow> string option"
  trace :: "event list"

text \<open>
  The \<open>encoding\<close> argument of the source: \<open>'utf8'\<close> for style sheets, \<open>'binary'\<close> for
  font files. A file read as \<open>'binary'\<close> is the string with one character per byte.
\<close>

datatype encoding = Utf8 | Binary

definition decode :: "env \<Rightarrow> encoding \<Rightarrow> string \<Rightarrow> string" where
  "decode e encoding bytes = (case encoding of Utf8 \<Rightarrow> utf8_text e bytes | Binary \<Rightarrow> bytes)"

definition getFromCache :: "env \<Rightarrow> string \<Rightarrow> encoding \<Rightarrow> world \<Rightarrow> string option \<times> world" where
  "getFromCache e key encoding w =
     (let file = cache_file e key in
      case disk w file of
        None \<Rightarrow> (None, w\<lparr>trace := trace w @ [FsExists file]\<rparr>)
      | Some bytes \<Rightarrow>
          (Some (decode e encoding bytes), w\<lparr>trace := trace w @ [FsExists file, FsRead file]\<rparr>))"

text \<open>
  \<open>saveToCache\<close> is only called with the \<open>Buffer\<close> of a response, whose bytes
  \<open>fs.writeFileSync\<close> writes as they are, whatever the encoding argument.
\<close>

definition saveToCache :: "env \<Rightarrow> string \<Rightarrow> string \<Rightarrow> world \<Rightarrow> world" where
  "saveToCache e key contents w =
     (let file = cache_file e key in
      w\<lparr>disk := (disk w)(file \<mapsto> contents), trace := trace w @ [FsWrite file contents]\<rparr>)"

subsection \<open>Asynchronous calls\<close>

text \<open>
  An \<open>async\<close> method of the source runs synchronously up to its first \<open>await\<close> on a pending
  promise; the only such promise is the one of \<open>axios(...)\<close>. So a started call is either
  settled (fulfilled with a value or rejected with an error) or pending on one HTTP
  response: \<open>Pending url agent key after\<close> waits for the response to the GET of \<open>url\<close> sent
  with the \<open>User-Agent\<close> \<open>agent\<close>, will save the body under \<open>key\<close>, and returns \<open>after body\<close>.
\<close>

datatype 'a task =
    Settled "error + 'a"
  | Pending string "string option" string "string \<Rightarrow> 'a"

text \<open>
  What \<open>requestFont\<close> returns: the string read from the cache, or the \<open>Buffer\<close> of the
  response body (\<open>responseType: 'arraybuffer'\<close>).
\<close>

datatype payload = Buffer string | Text string

text \<open>
  \<open>requestFont\<close> up to its \<open>await\<close>. A cached response counts only when it is truthy: an
  empty string is refetched. The request is on the wire as soon as \<open>axios(...)\<close> is called.
\<close>

definition requestFont_start ::
  "env \<Rightarrow> options \<Rightarrow> string option \<Rightarrow> string \<Rightarrow> encoding \<Rightarrow> world \<Rightarrow> payload task \<times> world" where
  "requestFont_start e opts requestString format encoding w =
     (case (getCacheKey e requestString format, requestString) of
        (Inl err, _) \<Rightarrow> (Settled (Inl err), w)
      | (Inr cacheKey, None) \<Rightarrow> (Settled (Inl TypeError), w)
      | (Inr cacheKey, Some url) \<Rightarrow>
          (let (response, w1) = (if cache opts then getFromCache e cacheKey encoding w else (None, w)) in
           case response of
             Some (c # cs) \<Rightarrow> (Settled (Inr (Text (c # cs))), w1)
           | _ \<Rightarrow>
               (let agent = map_of (formatAgents opts) format in
                (Pending url agent cacheKey Buffer, w1\<lparr>trace := trace w1 @ [HttpGet url agent]\<rparr>))))"

text \<open>
  The rest of \<open>requestFont\<close>, run when the response arrives: a failed request rejects the
  call; otherwise the body is saved to the cache and returned.
\<close>

fun task_resume :: "env \<Rightarrow> 'a task \<Rightarrow> world \<Rightarrow> (error + 'a) \<times> world" where
  "task_resume e (Settled r) w = (r, w)"
| "task_resume e (Pending url agent key after) w =
     (case http_get e url agent of
        None \<Rightarrow> (Inl AxiosError, w)
      | Some body \<Rightarrow> (Inr (after body), saveToCache e key body w))"

text \<open>One call of \<open>requestFont\<close>, awaited alone.\<close>

definition requestFont ::
  "env \<Rightarrow> options \<Rightarrow> string option \<Rightarrow> string \<Rightarrow> encoding \<Rightarrow> world \<Rightarrow> (error + payload) \<times> world" where
  "requestFont e opts requestString format encoding w =
     (let (t, w1) = requestFont_start e opts requestString format encoding w in task_resume e t w1)"

text \<open>
  \<open>xs.map(x => this.f(x))\<close> starts every call, in order, before any response is handled.
\<close>

fun start_all :: "('x \<Rightarrow> world \<Rightarrow> 'a task \<times> world) \<Rightarrow> 'x list \<Rightarrow> world \<Rightarrow> 'a task list \<times> world" where
  "start_all f [] w = ([], w)"
| "start_all f (x # xs) w =
     (let (t, w1) = f x w; (ts, w2) = start_all f xs w1 in (t # ts, w2))"

text \<open>
  The responses then arrive in an order the program does not choose: a schedule is the list
  of the indices of the calls whose responses arrive, in order of arrival. An index out of
  range or of a settled call does nothing.
\<close>

definition complete :: "env \<Rightarrow> nat \<Rightarrow> 'a task list \<times> world \<Rightarrow> 'a task list \<times> world" where
  "complete e i p =
     (case p of (ts, w) \<Rightarrow>
        if i < length ts
        then (let (r, w1) = task_resume e (ts ! i) w in (ts[i := Settled r], w1))
        else (ts, w))"

text \<open>
  \<open>for (const promise of promises) results.push(await promise)\<close> puts a handler on one
  promise at a time, in index order. While the loop waits for a pending call, a call after
  it that is rejected has no handler: it is orphaned. A rejected call that the loop has
  reached is thrown to the caller, so nothing after it counts.
\<close>

fun rejected :: "'a task \<Rightarrow> bool" where
  "rejected (Settled (Inl err)) = True"
| "rejected (Settled (Inr v)) = False"
| "rejected (Pending url agent key after) = False"

fun orphaned :: "'a task list \<Rightarrow> bool" where
  "orphaned [] = False"
| "orphaned (Settled (Inr v) # ts) = orphaned ts"
| "orphaned (Settled (Inl err) # ts) = False"
| "orphaned (Pending url agent key after # ts) = list_ex rejected ts"

text \<open>
  The responses of the schedule arrive one by one. Each time the event loop is idle (when
  the calls have been started, and after each response), Node in mode \<open>Throw\<close> ends the
  process if a call is orphaned; \<open>None\<close> is that end.
\<close>

fun arrive :: "env \<Rightarrow> nat list \<Rightarrow> 'a task list \<times> world \<Rightarrow> 'a task list option \<times> world" where
  "arrive e [] p =
     (if unhandled e = Throw \<and> orphaned (fst p) then (None, snd p) else (Some (fst p), snd p))"
| "arrive e (i # sched) p =
     (if unhandled e = Throw \<and> orphaned (fst p) then (None, snd p)
      else arrive e sched (complete e i p))"

text \<open>
  The loop itself: the promises are awaited in index order, whatever the order they settled
  in; a call still pending when its turn comes is waited for (after the schedule, the
  remaining responses arrive in index order). The first rejected one, in index order, is
  what the loop throws; the calls after it still run to their end.
\<close>

fun await_each :: "env \<Rightarrow> 'a task list \<Rightarrow> world \<Rightarrow> (error + 'a list) \<times> world" where
  "await_each e [] w = (Inr [], w)"
| "await_each e (t # ts) w =
     (let (r, w1) = task_resume e t w; (rs, w2) = await_each e ts w1 in
      (case r of Inl err \<Rightarrow> Inl err | Inr v \<Rightarrow> map_sum id ((#) v) rs, w2))"

definition await_all :: "env \<Rightarrow> nat list \<Rightarrow> 'a task list \<Rightarrow> world \<Rightarrow> (error + 'a list) \<times> world" where
  "await_all e sched ts w =
     (case arrive e sched (ts, w) of
        (None, w1) \<Rightarrow> (Inl UnhandledRejection, w1)
      | (Some ts1, w1) \<Rightarrow> await_each e ts1 w1)"

text \<open>
  \<open>results.join('')\<close> turns each element into a string: a \<open>Buffer\<close> is decoded as UTF-8,
  a string is taken as it is.
\<close>

fun toString :: "env \<Rightarrow> payload \<Rightarrow> string" where
  "toString e (Buffer bytes) = utf8_text e bytes"
| "toString e (Text s) = s"

definition requestFontsCSS ::
  "env \<Rightarrow> options \<Rightarrow> nat list \<Rightarrow> string \<Rightarrow> world \<Rightarrow> (error + string) \<times> world" where
  "requestFontsCSS e opts sched format w =
     (let (ts, w1) = start_all (\<lambda>requestString. requestFont_start e opts requestString format Utf8)
                       (createRequestStrings opts) w;
          (results, w2) = await_all e sched ts w1
      in (map_sum id (\<lambda>results. concat (map (toString e) results)) results, w2))"

subsection \<open>The regular expression \<open>/url\((.+?)\)/gi\<close>\<close>

text \<open>
  \<open>.\<close> matches every character but a line terminator (on 8-bit characters: line feed and
  carriage return). \<open>lazy_close s\<close> is the lazy \<open>.*?\<close> followed by \<open>\)\<close>: it stops at the
  first closing parenthesis and fails on a line terminator or at the end of the text.
\<close>

definition line_terminator :: "char \<Rightarrow> bool" where
  "line_terminator c \<longleftrightarrow> c = CHR 0x0A \<or> c = CHR 0x0D"

fun lazy_close :: "string \<Rightarrow> (string \<times> string) option" where
  "lazy_close [] = None"
| "lazy_close (c # cs) =
     (if c = CHR '')'' then Some ([], cs)
      else if line_terminator c then None
      else map_option (\<lambda>(t, r). (c # t, r)) (lazy_close cs))"

text \<open>
  A match of the expression at the start of a text: the four characters that match
  \<open>url\(\<close> without regard to case, the capture group (at least one character, which may be
  a closing parenthesis) and the text after the closing parenthesis.
\<close>

definition match_at :: "string \<Rightarrow> (string \<times> string \<times> string) option" where
  "match_at s =
     (case s of
        a # b # c # d # x # rest \<Rightarrow>
          if (a = CHR ''u'' \<or> a = CHR ''U'') \<and> (b = CHR ''r'' \<or> b = CHR ''R'')
             \<and> (c = CHR ''l'' \<or> c = CHR ''L'') \<and> d = CHR ''('' \<and> \<not> line_terminator x
          then (case lazy_close rest of
                  None \<Rightarrow> None
                | Some (t, r) \<Rightarrow> Some ([a, b, c, d], x # t, r))
          else None
      | _ \<Rightarrow> None)"

text \<open>
  The global scan: the matches from left to right, each tried at the first position after
  the previous match. A reference is the text skipped before the match (the gap), the
  opener and the capture group; the text after the last match comes last.
\<close>

function scan :: "string \<Rightarrow> (string \<times> string \<times> string) list \<times> string" where
  "scan [] = ([], [])"
| "scan (c # cs) =
     (case match_at (c # cs) of
        Some (opener, inner, rest) \<Rightarrow>
          (case scan rest of (refs, tail) \<Rightarrow> (([], opener, inner) # refs, tail))
      | None \<Rightarrow>
          (case scan cs of
             ([], tail) \<Rightarrow> ([], c # tail)
           | ((gap, opener, inner) # refs, tail) \<Rightarrow> ((c # gap, opener, inner) # refs, tail)))"
  by pat_completeness auto
termination
proof (relation "measure length")
  have close: "length r < Suc (length s)" if "lazy_close s = Some (t, r)" for s t r
    using that by (induction s arbitrary: t) (auto split: if_splits)
  fix c cs x2 opener y inner rest
  assume "match_at (c # cs) = Some x2" "(opener, y) = x2" "(inner, rest) = y"
  then have "match_at (c # cs) = Some (opener, inner, rest)"
    by simp
  then show "(rest, c # cs) \<in> measure length"
    by (auto simp: match_at_def split: list.splits if_splits option.splits dest!: close)
qed auto

text \<open>\<open>css.match(regex)\<close>: the matched substrings (\<open>null\<close>, here the empty list, when none).\<close>

definition match_all :: "string \<Rightarrow> string list" where
  "match_all css = map (\<lambda>(gap, opener, inner). opener @ inner @ '')'') (fst (scan css))"

text \<open>\<open>urlString.replace(regex, '$1')\<close>: every match replaced by its capture group.\<close>

definition strip_url :: "string \<Rightarrow> string" where
  "strip_url urlString =
     (case scan urlString of (refs, tail) \<Rightarrow>
        concat (map (\<lambda>(gap, opener, inner). gap @ inner) refs) @ tail)"

subsection \<open>\<open>String.prototype.replace\<close> with a string pattern\<close>

text \<open>
  The first occurrence of the pattern, as the text before it and the text after it.
\<close>

fun find_first :: "string \<Rightarrow> string \<Rightarrow> (string \<times> string) option" where
  "find_first pat [] = (if pat = [] then Some ([], []) else None)"
| "find_first pat (c # cs) =
     (if take (length pat) (c # cs) = pat then Some ([], drop (length pat) (c # cs))
      else map_option (\<lambda>(pre, post). (c # pre, post)) (find_first pat cs))"

text \<open>
  The replacement text is not taken literally: \<open>$$\<close> stands for a dollar sign, \<open>$&\<close> for the
  matched text, \<open>$`\<close> for the text before the match and \<open>$'\<close> for the text after it
  (a string pattern has no capture group, so \<open>$1\<close> stays as it is).
\<close>

fun expand :: "string \<Rightarrow> string \<Rightarrow> string \<Rightarrow> string \<Rightarrow> string" where
  "expand pre matched post [] = []"
| "expand pre matched post [c] = [c]"
| "expand pre matched post (c # d # r) =
     (if c = CHR ''$'' \<and> d = CHR ''$'' then CHR ''$'' # expand pre matched post r
      else if c = CHR ''$'' \<and> d = CHR ''&'' then matched @ expand pre matched post r
      else if c = CHR ''$'' \<and> d = CHR 0x60 then pre @ expand pre matched post r
      else if c = CHR ''$'' \<and> d = CHR 0x27 then post @ expand pre matched post r
      else c # expand pre matched post (d # r))"

text \<open>Only the first occurrence is replaced; a text without the pattern is unchanged.\<close>

definition replace_str :: "string \<Rightarrow> string \<Rightarrow> string \<Rightarrow> string" where
  "replace_str s pat rep =
     (case find_first pat s of
        None \<Rightarrow> s
      | Some (pre, post) \<Rightarrow> pre @ expand pre pat post rep @ post)"

subsection \<open>Base64\<close>

text \<open>The digit of a 6-bit value.\<close>

definition b64_digit :: "nat \<Rightarrow> char" where
  "b64_digit n = ''ABCDEFGHIJKLMNOPQRSTUVWXYZabcdefghijklmnopqrstuvwxyz0123456789+/'' ! (n mod 64)"

fun base64 :: "string \<Rightarrow> string" where
  "base64 [] = []"
| "base64 [a] =
     (let x = (of_char a :: nat) in
      [b64_digit (x div 4), b64_digit ((x mod 4) * 16), CHR ''='', CHR ''=''])"
| "base64 [a, b] =
     (let x = (of_char a :: nat); y = (of_char b :: nat) in
      [b64_digit (x div 4), b64_digit ((x mod 4) * 16 + y div 16),
       b64_digit ((y mod 16) * 4), CHR ''=''])"
| "base64 (a # b # c # r) =
     (let x = (of_char a :: nat); y = (of_char b :: nat); z = (of_char c :: nat) in
      [b64_digit (x div 4), b64_digit ((x mod 4) * 16 + y div 16),
       b64_digit ((y mod 16) * 4 + z div 64), b64_digit (z mod 64)] @ base64 r)"

subsection \<open>\<open>requestFontFile\<close>, \<open>requestFontFiles\<close> and \<open>encodeFonts\<close>\<close>

text \<open>
  \<open>fontUrl.match(new RegExp('(' + formats.join('|') + ')$'))\<close>. When no format name holds
  a special character of regular expressions (\<open>plain_format\<close>), the names are the
  alternatives of the group, each a literal, and no name makes the one empty alternative;
  the leftmost match wins, which is the longest suffix of the URL that is a format name.
  Any other list of names is left to the regular expressions of the runtime.
\<close>

definition plain_format :: "string \<Rightarrow> bool" where
  "plain_format f \<longleftrightarrow>
     list_all (\<lambda>c. c \<notin> set [CHR 0x5C, CHR ''^'', CHR ''$'', CHR ''.'', CHR ''|'', CHR ''?'', CHR ''*'',
                            CHR ''+'', CHR ''('', CHR '')'', CHR ''['', CHR '']'', CHR ''{'', CHR ''}'']) f"

definition alternatives :: "string list \<Rightarrow> string list" where
  "alternatives fmts = (if fmts = [] then [[]] else fmts)"

fun match_suffix :: "string list \<Rightarrow> string \<Rightarrow> string option" where
  "match_suffix alts [] = (if [] \<in> set alts then Some [] else None)"
| "match_suffix alts (c # cs) =
     (if c # cs \<in> set alts then Some (c # cs) else match_suffix alts cs)"

definition inferFormat :: "env \<Rightarrow> string list \<Rightarrow> string \<Rightarrow> error + string option" where
  "inferFormat e fmts fontUrl =
     (if list_all plain_format fmts then Inr (match_suffix (alternatives fmts) fontUrl)
      else regexp_match e (''('' @ join ''|'' fmts @ '')$'') fontUrl)"

definition dataPrefix :: string where
  "dataPrefix = CHR 0x22 # ''data:application/''"

definition startsWith :: "string \<Rightarrow> string \<Rightarrow> bool" where
  "startsWith s p \<longleftrightarrow> take (length p) s = p"

definition dataUri :: "string \<Rightarrow> string \<Rightarrow> string" where
  "dataUri format font =
     CHR 0x22 # ''data:application/x-font-'' @ format @ '';base64,'' @ base64 font @ [CHR 0x22]"

text \<open>What an awaiting caller does with the value of a call: \<open>f(await call)\<close>.\<close>

fun then_task :: "('a \<Rightarrow> 'b) \<Rightarrow> 'a task \<Rightarrow> 'b task" where
  "then_task f (Settled r) = Settled (map_sum id f r)"
| "then_task f (Pending url agent key after) = Pending url agent key (f \<circ> after)"

text \<open>
  \<open>requestFontFile\<close> up to its \<open>await\<close>: a URL that is already inlined is returned as it is;
  a URL that matches no format makes \<open>match\<close> return \<open>null\<close>, and \<open>null[1]\<close> throws; and
  so does \<open>new RegExp\<close> when the format names make no regular expression.
\<close>

text \<open>
  \<open>Buffer.from(font, 'binary')\<close>: the bytes of a \<open>Buffer\<close>, or one byte per character of a
  string.
\<close>

fun binary_bytes :: "payload \<Rightarrow> string" where
  "binary_bytes (Buffer bytes) = bytes"
| "binary_bytes (Text s) = s"

definition requestFontFile_start :: "env \<Rightarrow> options \<Rightarrow> string \<Rightarrow> world \<Rightarrow> string task \<times> world" where
  "requestFontFile_start e opts fontUrl w =
     (if startsWith fontUrl dataPrefix then (Settled (Inr fontUrl), w)
      else case inferFormat e (formats opts) fontUrl of
             Inl err \<Rightarrow> (Settled (Inl err), w)
           | Inr None \<Rightarrow> (Settled (Inl TypeError), w)
           | Inr (Some format) \<Rightarrow>
               (let (t, w1) = requestFont_start e opts (Some fontUrl) format Binary w in
                (then_task (\<lambda>font. dataUri format (binary_bytes font)) t, w1)))"

text \<open>One call of \<open>requestFontFile\<close>, awaited alone.\<close>

definition requestFontFile :: "env \<Rightarrow> options \<Rightarrow> string \<Rightarrow> world \<Rightarrow> (error + string) \<times> world" where
  "requestFontFile e opts fontUrl w =
     (let (t, w1) = requestFontFile_start e opts fontUrl w in task_resume e t w1)"

definition requestFontFiles ::
  "env \<Rightarrow> options \<Rightarrow> nat list \<Rightarrow> string list \<Rightarrow> world \<Rightarrow> (error + string list) \<times> world" where
  "requestFontFiles e opts sched fontUrls w =
     (let (ts, w1) = start_all (requestFontFile_start e opts) fontUrls w in
      await_all e sched ts w1)"

text \<open>
  \<open>encodeFonts\<close>. Without a match \<open>css.match(regex)\<close> is \<open>null\<close> and \<open>.map\<close> throws. The
  replacements run in the order of the references, each on the text the previous one left.
\<close>

definition encodeFonts ::
  "env \<Rightarrow> options \<Rightarrow> nat list \<Rightarrow> string \<Rightarrow> world \<Rightarrow> (error + string) \<times> world" where
  "encodeFonts e opts sched css w =
     (if encode opts then
        (case match_all css of
           [] \<Rightarrow> (Inl TypeError, w)
         | m # ms \<Rightarrow>
             (let fontUrls = map strip_url (m # ms);
                  (r, w1) = requestFontFiles e opts sched fontUrls w
              in case r of
                   Inl err \<Rightarrow> (Inl err, w1)
                 | Inr fontsEncoded \<Rightarrow>
                     (Inr (foldl (\<lambda>css (fontUrl, font). replace_str css fontUrl font)
                             css (zip fontUrls fontsEncoded)), w1)))
      else (Inr css, w))"

section \<open>The constructor: resolving the settings\<close>

text \<open>
  A JavaScript value as the constructor can receive or read from a file. An object is the
  list of its own enumerable properties in the order of \<open>Object.keys\<close>; numbers are
  kept as integers, which is all the constructor needs (it only tests a value's type and
  truthiness).
\<close>

datatype jsval =
    Undefined
  | Null
  | Bool bool
  | Num int
  | Str string
  | Arr "jsval list"
  | Obj "(string \<times> jsval) list"

definition pluginName :: string where
  "pluginName = ''google-fonts-plugin''"

definition defaultOptions :: "(string \<times> jsval) list" where
  "defaultOptions =
     [(''fonts'', Arr [Obj [(''family'', Str ''Roboto''),
                           (''variants'', Arr [Str ''400'', Str ''400i'', Str ''700'', Str ''700i'']),
                           (''subsets'', Arr [Str ''latin'', Str ''latin-ext''])]]),
      (''formats'', Arr [Str ''eot'', Str ''ttf'', Str ''woff'', Str ''woff2'']),
      (''formatAgents'', Obj
         [(''eot'', Str ''Mozilla/4.0 (compatible; MSIE 8.0; Windows NT 6.1; WOW64; Trident/4.0; SLCC2; .NET CLR 2.0.50727; .NET CLR 3.5.30729; .NET CLR 3.0.30729; .NET4.0C; .NET4.0E)''),
          (''ttf'', Str ''Mozilla/5.0 (Macintosh; Intel Mac OS X 10_6_8) AppleWebKit/534.59.8 (KHTML, like Gecko) Version/5.1.9 Safari/534.59.8''),
          (''woff'', Str ''Mozilla/5.0 (Windows NT 10.0; WOW64; Trident/7.0; .NET4.0C; .NET4.0E; .NET CLR 2.0.50727; .NET CLR 3.0.30729; .NET CLR 3.5.30729; rv:11.0) like Gecko''),
          (''woff2'', Str ''Mozilla/5.0 (Windows NT 10.0; Win64; x64; ServiceUI 8) AppleWebKit/537.36 (KHTML, like Gecko) Chrome/51.0.2704.79 Safari/537.36 Edge/14.14393'')]),
      (''chunkName'', Str ''google-fonts''),
      (''encode'', Bool True),
      (''cache'', Bool True)]"

text \<open>The decimal numeral of an array index, as a property key.\<close>

fun index_key :: "nat \<Rightarrow> string" where
  "index_key n =
     (if n < 10 then [''0123456789'' ! n] else index_key (n div 10) @ [''0123456789'' ! (n mod 10)])"

text \<open>
  The own enumerable properties of a value used as a source of \<open>Object.assign\<close> or given
  to \<open>Object.keys\<close>: those of an object, the elements of an array and the characters of a
  string under their indices, none for a number or a boolean.
\<close>

definition own_props :: "jsval \<Rightarrow> (string \<times> jsval) list" where
  "own_props v =
     (case v of
        Obj kvs \<Rightarrow> kvs
      | Arr xs \<Rightarrow> zip (map index_key [0..<length xs]) xs
      | Str s \<Rightarrow> zip (map index_key [0..<length s]) (map (\<lambda>c. Str [c]) s)
      | _ \<Rightarrow> [])"

text \<open>\<open>target[key] = value\<close>: an existing property keeps its place, a new one comes last.\<close>

fun set_prop :: "string \<Rightarrow> jsval \<Rightarrow> (string \<times> jsval) list \<Rightarrow> (string \<times> jsval) list" where
  "set_prop key v [] = [(key, v)]"
| "set_prop key v ((k, old) # kvs) =
     (if k = key then (k, v) # kvs else (k, old) # set_prop key v kvs)"

text \<open>
  \<open>Object.assign(target, source)\<close> copies the own properties of the source, one by one and
  as they are: a property whose value is an object is copied as a whole. A \<open>null\<close> or
  \<open>undefined\<close> source has no property.
\<close>

definition assign :: "(string \<times> jsval) list \<Rightarrow> jsval \<Rightarrow> (string \<times> jsval) list" where
  "assign target source = fold (\<lambda>(key, v). set_prop key v) (own_props source) target"

text \<open>\<open>Object.assign(this.options, defaultOptions, found)\<close> on the empty \<open>this.options\<close>.\<close>

definition resolve :: "jsval \<Rightarrow> jsval" where
  "resolve found = Obj (assign (assign [] (Obj defaultOptions)) found)"

definition truthy :: "jsval \<Rightarrow> bool" where
  "truthy v =
     (case v of
        Undefined \<Rightarrow> False
      | Null \<Rightarrow> False
      | Bool b \<Rightarrow> b
      | Num n \<Rightarrow> n \<noteq> 0
      | Str s \<Rightarrow> s \<noteq> []
      | _ \<Rightarrow> True)"

text \<open>\<open>v instanceof Object && Object.keys(v).length !== 0\<close>.\<close>

definition has_keys :: "jsval \<Rightarrow> bool" where
  "has_keys v = (case v of Obj kvs \<Rightarrow> kvs \<noteq> [] | Arr xs \<Rightarrow> xs \<noteq> [] | _ \<Rightarrow> False)"

text \<open>
  \<open>getConfig\<close> on a value it can take the keys of: the loop over the properties of an
  object (\<open>getConfig_props\<close>) or over the elements of an array (\<open>getConfig_elems\<close>, whose
  keys are indices and never the plugin's name), depth first; the first property named
  after the plugin is returned, and a search below a property counts only when its result
  is truthy. The characters of a string are no objects, so nothing is found in a string.
\<close>

primrec getConfig_in :: "jsval \<Rightarrow> jsval"
  and getConfig_elems :: "jsval list \<Rightarrow> jsval"
  and getConfig_props :: "(string \<times> jsval) list \<Rightarrow> jsval"
  and getConfig_prop :: "string \<times> jsval \<Rightarrow> jsval" where
  "getConfig_in Undefined = Undefined"
| "getConfig_in Null = Undefined"
| "getConfig_in (Bool b) = Undefined"
| "getConfig_in (Num n) = Undefined"
| "getConfig_in (Str s) = Undefined"
| "getConfig_in (Arr xs) = getConfig_elems xs"
| "getConfig_in (Obj kvs) = getConfig_props kvs"
| "getConfig_elems [] = Undefined"
| "getConfig_elems (x # xs) =
     (if has_keys x \<and> truthy (getConfig_in x) then getConfig_in x else getConfig_elems xs)"
| "getConfig_props [] = Undefined"
| "getConfig_props (kv # kvs) =
     (if fst kv = pluginName then snd kv
      else if has_keys (snd kv) \<and> truthy (getConfig_prop kv) then getConfig_prop kv
      else getConfig_props kvs)"
| "getConfig_prop (key, v) = getConfig_in v"

text \<open>\<open>Object.keys(null)\<close> and \<open>Object.keys(undefined)\<close> throw.\<close>

definition getConfig :: "jsval \<Rightarrow> error + jsval" where
  "getConfig options =
     (case options of
        Undefined \<Rightarrow> Inl TypeError
      | Null \<Rightarrow> Inl TypeError
      | _ \<Rightarrow> Inr (getConfig_in options))"

text \<open>
  What the constructor takes from the host: the files \<open>fs.readFileSync\<close> can read, the
  parsers \<open>JSON.parse\<close> and \<open>neon.decode\<close> (\<open>None\<close>: the text is rejected and the parser
  throws), and the path of the nearest package manifest, \<open>pkgUp.sync()\<close> (\<open>None\<close>: there
  is none).
\<close>

record host =
  files :: "string \<Rightarrow> string option"
  json_parse :: "string \<Rightarrow> jsval option"
  neon_decode :: "string \<Rightarrow> jsval option"
  pkg_up :: "string option"

definition readFileSync :: "host \<Rightarrow> string \<Rightarrow> error + string" where
  "readFileSync h path = (case files h path of None \<Rightarrow> Inl ENOENT | Some text \<Rightarrow> Inr text)"

definition endsWith :: "string \<Rightarrow> string \<Rightarrow> bool" where
  "endsWith s p \<longleftrightarrow> length p \<le> length s \<and> drop (length s - length p) s = p"

text \<open>\<open>file.replace(/\r\n/g, '\n')\<close>.\<close>

fun unix_lines :: "string \<Rightarrow> string" where
  "unix_lines (c # d # r) =
     (if c = CHR 0x0D \<and> d = CHR 0x0A then CHR 0x0A # unix_lines r else c # unix_lines (d # r))"
| "unix_lines s = s"

text \<open>The text of a configuration file, decoded by the parser its name selects.\<close>

definition decode_file :: "host \<Rightarrow> string \<Rightarrow> string \<Rightarrow> error + jsval" where
  "decode_file h path text =
     (if endsWith path ''.neon''
      then (case neon_decode h (unix_lines text) of None \<Rightarrow> Inl NeonError | Some v \<Rightarrow> Inr v)
      else (case json_parse h text of None \<Rightarrow> Inl SyntaxError | Some v \<Rightarrow> Inr v))"

text \<open>
  The constructor of \<open>src/src/index.js\<close>. Its argument is any value: \<open>typeof\<close> is
  \<open>'object'\<close> for an object, an array and \<open>null\<close>, \<open>'string'\<close> for a string (a file path),
  and anything else makes the constructor read the nearest package manifest.
\<close>

definition constructor :: "host \<Rightarrow> jsval \<Rightarrow> error + jsval" where
  "constructor h options =
     (case options of
        Obj kvs \<Rightarrow> Inr (resolve options)
      | Arr xs \<Rightarrow> Inr (resolve options)
      | Null \<Rightarrow> Inr (resolve options)
      | Str path \<Rightarrow>
          (case readFileSync h path of
             Inl err \<Rightarrow> Inl err
           | Inr file \<Rightarrow>
               (case decode_file h path file of
                  Inl err \<Rightarrow> Inl err
                | Inr fileOptions \<Rightarrow>
                    (case getConfig fileOptions of
                       Inl err \<Rightarrow> Inl err
                     | Inr found \<Rightarrow> Inr (resolve found))))
      | _ \<Rightarrow>
          (case pkg_up h of
             None \<Rightarrow> Inl TypeError
           | Some path \<Rightarrow>
               (case readFileSync h path of
                  Inl err \<Rightarrow> Inl err
                | Inr file \<Rightarrow>
                    (case json_parse h file of
                       None \<Rightarrow> Inl SyntaxError
                     | Some fileOptions \<Rightarrow>
                         (case getConfig fileOptions of
                            Inl err \<Rightarrow> Inl err
                          | Inr found \<Rightarrow> Inr (resolve found))))))"

subsection \<open>The constructor of \<open>src/unnamed/part_000\<close>\<close>

text \<open>
  The earlier constructor has its own name for the plugin and its own defaults, reads the
  plugin's entry of a NEON file directly, takes a JSON file as a whole, and falls back to
  the manifest beside the plugin (\<open>manifest\<close>, the path \<open>__dirname/package.json\<close>).
\<close>

definition PLUGIN_NAME :: string where
  "PLUGIN_NAME = ''google-fonts-webpack-plugin''"

definition defaultOptions_legacy :: "(string \<times> jsval) list" where
  "defaultOptions_legacy =
     [(''fonts'', Arr [Obj [(''family'', Str ''Roboto''),
                           (''variants'', Arr [Str ''400'', Str ''400i'', Str ''700'', Str ''700i'']),
                           (''subsets'', Arr [Str ''latin-ext''])]]),
      (''formats'', Arr [Str ''eot'', Str ''ttf'', Str ''woff'', Str ''woff2'']),
      (''formatAgents'', Obj
         [(''eot'', Str ''Mozilla/4.0 (compatible; MSIE 8.0; Windows NT 6.1; WOW64; Trident/4.0; SLCC2; .NET CLR 2.0.50727; .NET CLR 3.5.30729; .NET CLR 3.0.30729; .NET4.0C; .NET4.0E)''),
          (''ttf'', Str ''Mozilla/5.0 (Macintosh; Intel Mac OS X 10_6_8) AppleWebKit/534.59.8 (KHTML, like Gecko) Version/5.1.9 Safari/534.59.8''),
          (''woff'', Str ''Mozilla/5.0 (Windows NT 10.0; WOW64; Trident/7.0; .NET4.0C; .NET4.0E; .NET CLR 2.0.50727; .NET CLR 3.0.30729; .NET CLR 3.5.30729; rv:11.0) like Gecko''),
          (''woff2'', Str ''Mozilla/5.0 (Windows NT 10.0; Win64; x64; ServiceUI 8) AppleWebKit/537.36 (KHTML, like Gecko) Chrome/51.0.2704.79 Safari/537.36 Edge/14.14393'')])]"

definition resolve_legacy :: "jsval \<Rightarrow> jsval" where
  "resolve_legacy found = Obj (assign (assign [] (Obj defaultOptions_legacy)) found)"

text \<open>\<open>v[PLUGIN_NAME]\<close>: reading a property of \<open>null\<close> or \<open>undefined\<close> throws.\<close>

definition plugin_entry :: "jsval \<Rightarrow> error + jsval" where
  "plugin_entry v =
     (case v of
        Undefined \<Rightarrow> Inl TypeError
      | Null \<Rightarrow> Inl TypeError
      | _ \<Rightarrow> Inr (case map_of (own_props v) PLUGIN_NAME of None \<Rightarrow> Undefined | Some x \<Rightarrow> x))"

definition constructor_legacy :: "host \<Rightarrow> string \<Rightarrow> jsval \<Rightarrow> error + jsval" where
  "constructor_legacy h manifest options =
     (case options of
        Obj kvs \<Rightarrow> Inr (resolve_legacy options)
      | Arr xs \<Rightarrow> Inr (resolve_legacy options)
      | Null \<Rightarrow> Inr (resolve_legacy options)
      | Str path \<Rightarrow>
          (case readFileSync h path of
             Inl err \<Rightarrow> Inl err
           | Inr file \<Rightarrow>
               (if endsWith path ''.neon''
                then (case neon_decode h (unix_lines file) of
                       None \<Rightarrow> Inl NeonError
                     | Some v \<Rightarrow>
                         (case plugin_entry v of
                            Inl err \<Rightarrow> Inl err
                          | Inr fileOptions \<Rightarrow> Inr (resolve_legacy fileOptions)))
               else (case json_parse h file of
                       None \<Rightarrow> Inl SyntaxError
                     | Some fileOptions \<Rightarrow> Inr (resolve_legacy fileOptions))))
      | _ \<Rightarrow>
          (case readFileSync h manifest of
             Inl err \<Rightarrow> Inl err
           | Inr file \<Rightarrow>
               (case json_parse h file of
                  None \<Rightarrow> Inl SyntaxError
                | Some fileOptions \<Rightarrow>
                    (case plugin_entry fileOptions of
                       Inl err \<Rightarrow> Inl err
                     | Inr found \<Rightarrow>
                         Inr (resolve_legacy (if truthy found then found else Obj []))))))"

subsection \<open>The deep merge of the specification\<close>

text \<open>
  The specification's words, for comparison with \<open>resolve\<close>: the defaults lie underneath
  the given object at every depth, so a field the user does not supply keeps its default
  also inside a nested object; where the user supplies a value that is no object, it wins.
\<close>

fun spec_deep_merge :: "jsval \<Rightarrow> jsval \<Rightarrow> jsval" where
  "spec_deep_merge (Obj ds) (Obj us) =
     Obj (map (\<lambda>(key, d). (key, case map_of us key of None \<Rightarrow> d | Some u \<Rightarrow> spec_deep_merge d u)) ds
          @ filter (\<lambda>(key, u). map_of ds key = None) us)"
| "spec_deep_merge d u = u"

section \<open>Auxiliary notions for the proofs\<close>

text \<open>
  The value a call settles with does not depend on when its response arrives:
  \<open>task_value\<close> reads it off the task and the server.
\<close>

definition task_value :: "env \<Rightarrow> 'a task \<Rightarrow> error + 'a" where
  "task_value e t =
     (case t of
        Settled r \<Rightarrow> r
      | Pending url agent key after \<Rightarrow>
          (case http_get e url agent of None \<Rightarrow> Inl AxiosError | Some body \<Rightarrow> Inr (after body)))"

text \<open>
  What the awaiting loop returns for settled values: the first error in index order, or
  all the values.
\<close>

fun gather :: "(error + 'a) list \<Rightarrow> error + 'a list" where
  "gather [] = Inr []"
| "gather (r # rs) = (case r of Inl err \<Rightarrow> Inl err | Inr v \<Rightarrow> map_sum id ((#) v) (gather rs))"



text \<open>\<open>v[key]\<close> on a value that is not \<open>null\<close> or \<open>undefined\<close>.\<close>

definition field :: "string \<Rightarrow> jsval \<Rightarrow> jsval" where
  "field key v = (case map_of (own_props v) key of None \<Rightarrow> Undefined | Some x \<Rightarrow> x)"

text \<open>
  The URLs \<open>encodeFonts\<close> extracts from a text, and a scanned text put together again.
\<close>

definition fontUrls :: "string \<Rightarrow> string list" where
  "fontUrls css = map strip_url (match_all css)"

definition unscan :: "(string \<times> string \<times> string) list \<times> string \<Rightarrow> string" where
  "unscan p = (case p of (refs, tail) \<Rightarrow>
      concat (map (\<lambda>(gap, opener, inner). gap @ opener @ inner @ '')'') refs) @ tail)"

text \<open>
  The scanned text with the capture group of each reference replaced by a value.
\<close>

fun render :: "((string \<times> string \<times> string) \<times> string) list \<Rightarrow> string \<Rightarrow> string" where
  "render [] tail = tail"
| "render (((gap, opener, inner), v) # rvs) tail = gap @ opener @ v @ '')'' @ render rvs tail"

text \<open>
  The condition under which each replacement of \<open>encodeFonts\<close> hits the reference it is
  meant for: when the turn of a reference comes, the text rewritten so far (\<open>sofar\<close>),
  followed by the gap and the opener of the reference, holds no earlier occurrence of its
  URL, so the first occurrence of the URL is the reference itself.
\<close>

fun in_turn :: "string \<Rightarrow> ((string \<times> string \<times> string) \<times> string) list \<Rightarrow> bool" where
  "in_turn sofar [] = True"
| "in_turn sofar (((gap, opener, inner), v) # rvs) =
     (find_first inner (sofar @ gap @ opener @ inner) = Some (sofar @ gap @ opener, [])
      \<and> in_turn (sofar @ gap @ opener @ v @ '')'') rvs)"

section \<open>Properties\<close>

subsection \<open>The cache key\<close>

text \<open>
  C6. The cache key is a function of the request URL and the format: the format, a dash, and
  the digest of the URL. Its length is fixed by the length of the digest, the file path is
  the path of that key, and on every set of URLs on which the digest has one length and is
  injective, two pairs (URL, format) have the same key (and so the same file) exactly when
  they are the same pair.
\<close>

theorem getCacheKey_digest_injective:
  assumes "\<forall>u\<in>U. length (sha1_hex e u) = n"
    and "inj_on (sha1_hex e) U"
    and "u1 \<in> U" and "u2 \<in> U"
  shows "getCacheKey e (Some u1) f1 = Inr (f1 @ ''-'' @ sha1_hex e u1)
    \<and> (\<forall>k. getCacheKey e (Some u1) f1 = Inr k \<longrightarrow> length k = length f1 + 1 + n)
    \<and> (getCacheKey e (Some u1) f1 = getCacheKey e (Some u2) f2 \<longleftrightarrow> u1 = u2 \<and> f1 = f2)
    \<and> (u1 = u2 \<and> f1 = f2 \<longrightarrow>
          map_sum id (cache_file e) (getCacheKey e (Some u1) f1)
        = map_sum id (cache_file e) (getCacheKey e (Some u2) f2))"
proof -
  have len: "length (sha1_hex e u1) = n" "length (sha1_hex e u2) = n"
    using assms by auto
  have "u1 = u2 \<and> f1 = f2"
    if eq: "f1 @ ''-'' @ sha1_hex e u1 = f2 @ ''-'' @ sha1_hex e u2"
  proof -
    have "(f1 @ ''-'') @ sha1_hex e u1 = (f2 @ ''-'') @ sha1_hex e u2"
      using eq by simp
    then have "f1 @ ''-'' = f2 @ ''-'' \<and> sha1_hex e u1 = sha1_hex e u2"
      using len by (metis append_eq_append_conv)
    then show ?thesis
      using assms(2-4) by (auto dest: inj_onD)
  qed
  then show ?thesis
    using len by auto
qed

theorem getCacheKey_digest_injective_witness:
  "getCacheKey \<lparr>sha1_hex = (\<lambda>u. if u = ''a'' then ''00'' else ''ff''), cache_file = (\<lambda>k. ''/c/'' @ k),
        http_get = (\<lambda>u a. None),
        regexp_match = (\<lambda>source text. Inr None), utf8_text = (\<lambda>bytes. bytes), unhandled = Warn\<rparr> (Some ''a'') ''woff''
     = Inr ''woff-00''
   \<and> getCacheKey \<lparr>sha1_hex = (\<lambda>u. if u = ''a'' then ''00'' else ''ff''), cache_file = (\<lambda>k. ''/c/'' @ k),
        http_get = (\<lambda>u a. None),
        regexp_match = (\<lambda>source text. Inr None), utf8_text = (\<lambda>bytes. bytes), unhandled = Warn\<rparr> (Some ''a'') ''woff''
     \<noteq> getCacheKey \<lparr>sha1_hex = (\<lambda>u. if u = ''a'' then ''00'' else ''ff''), cache_file = (\<lambda>k. ''/c/'' @ k),
        http_get = (\<lambda>u a. None),
        regexp_match = (\<lambda>source text. Inr None), utf8_text = (\<lambda>bytes. bytes), unhandled = Warn\<rparr> (Some ''b'') ''woff''"
  using getCacheKey_digest_injective [of "{''a'', ''b''}"
      "\<lparr>sha1_hex = (\<lambda>u. if u = ''a'' then ''00'' else ''ff''), cache_file = (\<lambda>k. ''/c/'' @ k),
        http_get = (\<lambda>u a. None),
        regexp_match = (\<lambda>source text. Inr None), utf8_text = (\<lambda>bytes. bytes), unhandled = Warn\<rparr>" 2 "''a''" "''b''" "''woff''" "''woff''"]
  by (simp add: inj_on_def)

subsection \<open>The constructor\<close>

lemma map_of_set_prop: "map_of (set_prop key v kvs) = (map_of kvs)(key \<mapsto> v)"
  by (induction kvs) auto

lemma map_of_fold_set_prop:
  "map_of (fold (\<lambda>(key, v). set_prop key v) props target) = map_of target ++ map_of (rev props)"
proof (induction props arbitrary: target)
  case Nil
  then show ?case by simp
next
  case (Cons p props)
  obtain key v where p: "p = (key, v)" by (cases p)
  show ?case
    by (auto simp: Cons.IH p map_of_set_prop map_add_def fun_eq_iff split: option.split)
qed

lemma map_of_rev_distinct: "distinct (map fst xs) \<Longrightarrow> map_of (rev xs) = map_of xs"
proof (induction xs)
  case Nil
  then show ?case by simp
next
  case (Cons x xs)
  obtain key v where x: "x = (key, v)" by (cases x)
  have "map_of xs key = None"
    using Cons.prems x by (simp add: map_of_eq_None_iff)
  then show ?case
    using Cons x by (auto simp: map_add_def fun_eq_iff split: option.split)
qed

lemma map_of_assign:
  assumes "distinct (map fst (own_props source))"
  shows "map_of (assign target source) = map_of target ++ map_of (own_props source)"
  using assms by (simp add: assign_def map_of_fold_set_prop map_of_rev_distinct)

lemma assign_defaults: "assign [] (Obj defaultOptions) = defaultOptions"
  by (simp add: assign_def own_props_def defaultOptions_def)

lemma assign_defaults_legacy: "assign [] (Obj defaultOptions_legacy) = defaultOptions_legacy"
  by (simp add: assign_def own_props_def defaultOptions_legacy_def)

text \<open>
  C3, as the claim states it, fails: \<open>Object.assign\<close> copies the top-level properties and
  nothing below them. Given only the \<open>woff2\<close> agent, the resolved \<open>formatAgents\<close> is the
  given object and has lost the default \<open>eot\<close> agent, which the deep merge of the
  specification keeps.
\<close>

theorem constructor_deep_merge_counterexample:
  "map_sum id (field ''woff2'' \<circ> field ''formatAgents'')
      (constructor \<lparr>files = Map.empty, json_parse = (\<lambda>t. None), neon_decode = (\<lambda>t. None), pkg_up = None\<rparr>
         (Obj [(''formatAgents'', Obj [(''woff2'', Str ''X'')])])) = Inr (Str ''X'')
   \<and> map_sum id (field ''eot'' \<circ> field ''formatAgents'')
      (constructor \<lparr>files = Map.empty, json_parse = (\<lambda>t. None), neon_decode = (\<lambda>t. None), pkg_up = None\<rparr>
         (Obj [(''formatAgents'', Obj [(''woff2'', Str ''X'')])])) = Inr Undefined
   \<and> field ''eot'' (field ''formatAgents''
        (spec_deep_merge (Obj defaultOptions) (Obj [(''formatAgents'', Obj [(''woff2'', Str ''X'')])])))
       = field ''eot'' (field ''formatAgents'' (Obj defaultOptions))
   \<and> field ''eot'' (field ''formatAgents'' (Obj defaultOptions)) \<noteq> Undefined"
  by (simp add: constructor_def resolve_def assign_def own_props_def defaultOptions_def field_def)

text \<open>
  C3, amended. For every configuration value of type \<open>object\<close> (an object, an array or
  \<open>null\<close>; its keys distinct, as the keys of an object are), each of the two constructors
  succeeds and the resolved settings are the shallow merge with its defaults: a top-level property that the value
  supplies is taken from it as a whole, and every other top-level property has its default.
\<close>

theorem constructor_shallow_merge:
  assumes "options = Null \<or> (\<exists>xs. options = Arr xs) \<or> (\<exists>kvs. options = Obj kvs)"
    and "distinct (map fst (own_props options))"
  shows "(\<exists>resolved. constructor h options = Inr (Obj resolved)
      \<and> (\<forall>key. map_of resolved key =
            (case map_of (own_props options) key of
               Some v \<Rightarrow> Some v
             | None \<Rightarrow> map_of defaultOptions key)))
    \<and> (\<exists>resolved. constructor_legacy h manifest options = Inr (Obj resolved)
      \<and> (\<forall>key. map_of resolved key =
            (case map_of (own_props options) key of
               Some v \<Rightarrow> Some v
             | None \<Rightarrow> map_of defaultOptions_legacy key)))"
proof -
  have "constructor h options = Inr (resolve options)"
    and "constructor_legacy h manifest options = Inr (resolve_legacy options)"
    using assms(1) by (auto simp: constructor_def constructor_legacy_def)
  moreover have "map_of (assign defaults options) key =
      (case map_of (own_props options) key of Some v \<Rightarrow> Some v | None \<Rightarrow> map_of defaults key)"
    for key defaults
    using assms(2) by (simp add: map_of_assign map_add_def)
  ultimately show ?thesis
    by (simp add: resolve_def resolve_legacy_def assign_defaults assign_defaults_legacy)
qed

theorem constructor_shallow_merge_witness:
  "map_sum id (field ''formatAgents'')
      (constructor \<lparr>files = Map.empty, json_parse = (\<lambda>t. None), neon_decode = (\<lambda>t. None), pkg_up = None\<rparr>
         (Obj [(''formatAgents'', Obj [(''woff2'', Str ''X'')]), (''cache'', Bool False)]))
     = Inr (Obj [(''woff2'', Str ''X'')])
   \<and> map_sum id (field ''chunkName'')
      (constructor \<lparr>files = Map.empty, json_parse = (\<lambda>t. None), neon_decode = (\<lambda>t. None), pkg_up = None\<rparr>
         (Obj [(''formatAgents'', Obj [(''woff2'', Str ''X'')]), (''cache'', Bool False)]))
     = Inr (Str ''google-fonts'')"
  using constructor_shallow_merge [where
     options = "Obj [(''formatAgents'', Obj [(''woff2'', Str ''X'')]), (''cache'', Bool False)]"
     and h = "\<lparr>files = Map.empty, json_parse = (\<lambda>t. None), neon_decode = (\<lambda>t. None), pkg_up = None\<rparr>"
     and manifest = "''package.json''"]
  by (auto simp: own_props_def field_def defaultOptions_def)

text \<open>
  C9. Constructed from a file path, both constructors fail, and never return settings:
  with the read error \<open>ENOENT\<close> when the path does not exist, with the \<open>SyntaxError\<close> of
  \<open>JSON.parse\<close> when the file is not valid JSON, and with the error of \<open>neon.decode\<close> when
  a \<open>.neon\<close> file is not valid NEON.
\<close>

theorem constructor_file_errors:
  "(files h path = None \<longrightarrow>
      constructor h (Str path) = Inl ENOENT \<and> constructor_legacy h manifest (Str path) = Inl ENOENT)
   \<and> (files h path = Some text \<and> \<not> endsWith path ''.neon'' \<and> json_parse h text = None \<longrightarrow>
      constructor h (Str path) = Inl SyntaxError \<and> constructor_legacy h manifest (Str path) = Inl SyntaxError)
   \<and> (files h path = Some text \<and> endsWith path ''.neon'' \<and> neon_decode h (unix_lines text) = None \<longrightarrow>
      constructor h (Str path) = Inl NeonError \<and> constructor_legacy h manifest (Str path) = Inl NeonError)"
  by (simp add: constructor_def constructor_legacy_def readFileSync_def decode_file_def)

theorem constructor_file_errors_witness:
  "constructor \<lparr>files = [''bad.json'' \<mapsto> ''{'', ''bad.neon'' \<mapsto> ''a: [''],
                 json_parse = (\<lambda>t. if t = ''{}'' then Some (Obj []) else None),
                 neon_decode = (\<lambda>t. if t = [] then Some Null else None), pkg_up = None\<rparr> (Str ''missing.json'')
     = Inl ENOENT
   \<and> constructor \<lparr>files = [''bad.json'' \<mapsto> ''{'', ''bad.neon'' \<mapsto> ''a: [''],
                 json_parse = (\<lambda>t. if t = ''{}'' then Some (Obj []) else None),
                 neon_decode = (\<lambda>t. if t = [] then Some Null else None), pkg_up = None\<rparr> (Str ''bad.json'')
     = Inl SyntaxError
   \<and> constructor \<lparr>files = [''bad.json'' \<mapsto> ''{'', ''bad.neon'' \<mapsto> ''a: [''],
                 json_parse = (\<lambda>t. if t = ''{}'' then Some (Obj []) else None),
                 neon_decode = (\<lambda>t. if t = [] then Some Null else None), pkg_up = None\<rparr> (Str ''bad.neon'')
     = Inl NeonError"
  using constructor_file_errors [of "\<lparr>files = [''bad.json'' \<mapsto> ''{'', ''bad.neon'' \<mapsto> ''a: [''],
                 json_parse = (\<lambda>t. if t = ''{}'' then Some (Obj []) else None),
                 neon_decode = (\<lambda>t. if t = [] then Some Null else None), pkg_up = None\<rparr>" "''missing.json''" "''package.json''" "[]"]
    constructor_file_errors [of "\<lparr>files = [''bad.json'' \<mapsto> ''{'', ''bad.neon'' \<mapsto> ''a: [''],
                 json_parse = (\<lambda>t. if t = ''{}'' then Some (Obj []) else None),
                 neon_decode = (\<lambda>t. if t = [] then Some Null else None), pkg_up = None\<rparr>" "''bad.json''" "''package.json''" "''{''"]
    constructor_file_errors [of "\<lparr>files = [''bad.json'' \<mapsto> ''{'', ''bad.neon'' \<mapsto> ''a: [''],
                 json_parse = (\<lambda>t. if t = ''{}'' then Some (Obj []) else None),
                 neon_decode = (\<lambda>t. if t = [] then Some Null else None), pkg_up = None\<rparr>" "''bad.neon''" "''package.json''" "''a: [''"]
  by (simp add: endsWith_def)

subsection \<open>The request URLs\<close>

text \<open>
  C4, as the claim states it, fails: a descriptor without a family is not skipped. The
  arrow function returns \<open>null\<close> for it, and \<open>map\<close> keeps that \<open>null\<close> at the
  descriptor's position.
\<close>

theorem createRequestStrings_skip_counterexample:
  "createRequestStrings \<lparr>fonts = [\<lparr>family = None, variants = Some [''400''], subsets = Some [''latin'']\<rparr>,
                                   \<lparr>family = Some ''Roboto'', variants = None, subsets = Some [''latin'']\<rparr>],
       formats = [''woff2''], formatAgents = [], chunkName = ''google-fonts'', encode = True, cache = True\<rparr>
     = [None, Some ''https://fonts.googleapis.com/css?family=Roboto&subset=latin'']"
  by (simp add: createRequestStrings_def requestString_of_def is_space_def)

text \<open>
  C4, amended. \<open>createRequestStrings\<close> yields exactly one entry per descriptor, in
  descriptor order: for a descriptor with a non-empty family a URL that starts with the
  host, the path and the family (white space as \<open>+\<close>), and for a descriptor without a
  family (missing or empty) the entry \<open>null\<close>.
\<close>

theorem createRequestStrings_one_entry_each:
  "length (createRequestStrings opts) = length (fonts opts)
   \<and> (\<forall>i<length (fonts opts).
        (case family (fonts opts ! i) of
           None \<Rightarrow> createRequestStrings opts ! i = None
         | Some fam \<Rightarrow>
             if fam = [] then createRequestStrings opts ! i = None
             else \<exists>rest. createRequestStrings opts ! i
                    = Some (''https://fonts.googleapis.com/css?family=''
                            @ map (\<lambda>c. if is_space c then CHR ''+'' else c) fam @ rest)))"
  by (auto simp: createRequestStrings_def requestString_of_def split: option.splits)

theorem createRequestStrings_one_entry_each_witness:
  "createRequestStrings \<lparr>fonts = [\<lparr>family = Some ''Open Sans'', variants = Some [''400'', ''700''], subsets = Some [''latin'']\<rparr>,
                                   \<lparr>family = None, variants = None, subsets = None\<rparr>],
       formats = [''woff2''], formatAgents = [], chunkName = ''google-fonts'', encode = True, cache = True\<rparr> ! 0
     = Some ''https://fonts.googleapis.com/css?family=Open+Sans:400,700&subset=latin''
   \<and> length (createRequestStrings \<lparr>fonts = [\<lparr>family = Some ''Open Sans'', variants = Some [''400'', ''700''], subsets = Some [''latin'']\<rparr>,
                                   \<lparr>family = None, variants = None, subsets = None\<rparr>],
       formats = [''woff2''], formatAgents = [], chunkName = ''google-fonts'', encode = True, cache = True\<rparr>) = 2"
  using createRequestStrings_one_entry_each [of "\<lparr>fonts = [\<lparr>family = Some ''Open Sans'', variants = Some [''400'', ''700''], subsets = Some [''latin'']\<rparr>,
                                   \<lparr>family = None, variants = None, subsets = None\<rparr>],
       formats = [''woff2''], formatAgents = [], chunkName = ''google-fonts'', encode = True, cache = True\<rparr>"]
  by (simp add: createRequestStrings_def requestString_of_def is_space_def)

subsection \<open>Fetching\<close>

text \<open>
  C2. With the cache setting off, \<open>requestFont\<close> does not look at the disk and sends the
  GET on every call, but a successful response is still written to the cache file:
  \<open>saveToCache\<close> is called without a test of the setting, unlike \<open>getFromCache\<close>. So
  the disk is not left unchanged, which is what the claim asks for.
\<close>

theorem requestFont_uncached:
  assumes "\<not> cache opts"
  shows "requestFont e opts (Some url) format encoding w =
     (let agent = map_of (formatAgents opts) format;
          file = cache_file e (format @ ''-'' @ sha1_hex e url)
      in case http_get e url agent of
           None \<Rightarrow> (Inl AxiosError, w\<lparr>trace := trace w @ [HttpGet url agent]\<rparr>)
         | Some body \<Rightarrow>
             (Inr (Buffer body), w\<lparr>disk := (disk w)(file \<mapsto> body),
                          trace := trace w @ [HttpGet url agent, FsWrite file body]\<rparr>))"
  using assms
  by (simp add: requestFont_def requestFont_start_def saveToCache_def Let_def split: option.splits)

theorem requestFont_uncached_witness:
  "requestFont \<lparr>sha1_hex = (\<lambda>u. ''00''), cache_file = (\<lambda>k. ''/c/'' @ k), http_get = (\<lambda>u a. Some ''AB''),
        regexp_match = (\<lambda>source text. Inr None), utf8_text = (\<lambda>bytes. bytes), unhandled = Warn\<rparr>
      \<lparr>fonts = [], formats = [''woff2''], formatAgents = [(''woff2'', ''UA'')], chunkName = ''google-fonts'', encode = True, cache = False\<rparr>
      (Some ''http://x/f.woff2'') ''woff2'' Binary \<lparr>disk = Map.empty, trace = []\<rparr>
   = (Inr (Buffer ''AB''), \<lparr>disk = [''/c/woff2-00'' \<mapsto> ''AB''],
         trace = [HttpGet ''http://x/f.woff2'' (Some ''UA''), FsWrite ''/c/woff2-00'' ''AB'']\<rparr>)"
  using requestFont_uncached [where
      opts = "\<lparr>fonts = [], formats = [''woff2''], formatAgents = [(''woff2'', ''UA'')], chunkName = ''google-fonts'', encode = True, cache = False\<rparr>"
      and e = "\<lparr>sha1_hex = (\<lambda>u. ''00''), cache_file = (\<lambda>k. ''/c/'' @ k), http_get = (\<lambda>u a. Some ''AB''),
        regexp_match = (\<lambda>source text. Inr None), utf8_text = (\<lambda>bytes. bytes), unhandled = Warn\<rparr>"
      and url = "''http://x/f.woff2''" and format = "''woff2''" and encoding = Binary
      and w = "\<lparr>disk = Map.empty, trace = []\<rparr>"]
  by (simp add: Let_def)

subsection \<open>Concurrent calls\<close>

lemma fst_task_resume: "fst (task_resume e t w) = task_value e t"
  by (cases t) (auto simp: task_value_def split: option.splits)

lemma task_value_Settled: "task_value e (Settled r) = r"
  by (simp add: task_value_def)

lemma fst_await_each: "fst (await_each e ts w) = gather (map (task_value e) ts)"
proof (induction ts arbitrary: w)
  case Nil
  then show ?case by simp
next
  case (Cons t ts)
  obtain r w1 where r: "task_resume e t w = (r, w1)" by (cases "task_resume e t w")
  then have v: "task_value e t = r"
    using fst_task_resume [of e t w] by simp
  obtain rs w2 where rs: "await_each e ts w1 = (rs, w2)" by (cases "await_each e ts w1")
  then have "rs = gather (map (task_value e) ts)"
    using Cons.IH [of w1] by simp
  then show ?case
    by (simp add: r rs v)
qed

lemma complete_values:
  "map (task_value e) (fst (complete e i (ts, w))) = map (task_value e) ts"
proof (cases "i < length ts")
  case True
  obtain r w1 where r: "task_resume e (ts ! i) w = (r, w1)" by (cases "task_resume e (ts ! i) w")
  then have "task_value e (ts ! i) = r"
    using fst_task_resume [of e "ts ! i" w] by simp
  then have "(map (task_value e) ts)[i := r] = map (task_value e) ts"
    using True by (metis list_update_id nth_map length_map)
  then show ?thesis
    using True by (simp add: complete_def r map_update task_value_Settled)
next
  case False
  then show ?thesis by (simp add: complete_def)
qed

lemma rejected_value: "rejected t \<Longrightarrow> \<exists>err. task_value e t = Inl err"
  by (cases t rule: rejected.cases) (simp_all add: task_value_def)

lemma orphaned_rejected: "orphaned ts \<Longrightarrow> \<exists>t\<in>set ts. rejected t"
  by (induction ts rule: orphaned.induct) (auto simp: list_ex_iff)

lemma fulfilled_not_orphaned:
  assumes "\<forall>r\<in>set (map (task_value e) ts). \<exists>v. r = Inr v"
  shows "\<not> orphaned ts"
proof
  assume "orphaned ts"
  then obtain t where "t \<in> set ts" "rejected t"
    using orphaned_rejected by blast
  then show False
    using assms rejected_value [of t e] by fastforce
qed

text \<open>
  The process goes on at every idle point when Node only warns, and also when every call is
  fulfilled in the end (then no call is ever rejected).
\<close>

lemma arrive_goes_on:
  assumes "unhandled e = Warn \<or> (\<forall>r\<in>set (map (task_value e) ts). \<exists>v. r = Inr v)"
  shows "\<exists>ts1 w1. arrive e sched (ts, w) = (Some ts1, w1)
           \<and> map (task_value e) ts1 = map (task_value e) ts"
  using assms
proof (induction sched arbitrary: ts w)
  case Nil
  then have "\<not> (unhandled e = Throw \<and> orphaned ts)"
    using fulfilled_not_orphaned by auto
  then show ?case by simp
next
  case (Cons i sched)
  have go: "\<not> (unhandled e = Throw \<and> orphaned ts)"
    using Cons.prems fulfilled_not_orphaned by auto
  obtain ts' w' where c: "complete e i (ts, w) = (ts', w')"
    by (cases "complete e i (ts, w)")
  then have v: "map (task_value e) ts' = map (task_value e) ts"
    using complete_values [of e i ts w] by simp
  then obtain ts1 w1 where "arrive e sched (ts', w') = (Some ts1, w1)"
    "map (task_value e) ts1 = map (task_value e) ts'"
    using Cons.IH [of ts' w'] Cons.prems by auto
  then show ?case
    using go c v by simp
qed

lemma fst_await_all:
  assumes "unhandled e = Warn \<or> (\<forall>r\<in>set (map (task_value e) ts). \<exists>v. r = Inr v)"
  shows "fst (await_all e sched ts w) = gather (map (task_value e) ts)"
proof -
  obtain ts1 w1 where "arrive e sched (ts, w) = (Some ts1, w1)"
    "map (task_value e) ts1 = map (task_value e) ts"
    using arrive_goes_on [OF assms] by blast
  then show ?thesis
    by (simp add: await_all_def fst_await_each)
qed

lemma start_all_tasks:
  assumes keep: "\<And>x w. disk (snd (f x w)) = disk w"
    and same: "\<And>x w w'. disk w = disk w' \<Longrightarrow> fst (f x w) = fst (f x w')"
  shows "fst (start_all f xs w) = map (\<lambda>x. fst (f x w)) xs \<and> disk (snd (start_all f xs w)) = disk w"
proof (induction xs arbitrary: w)
  case Nil
  then show ?case by simp
next
  case (Cons x xs)
  obtain t w1 where t: "f x w = (t, w1)" by (cases "f x w")
  then have d: "disk w1 = disk w"
    using keep [of x w] by simp
  obtain ts w2 where ts: "start_all f xs w1 = (ts, w2)" by (cases "start_all f xs w1")
  then have "ts = map (\<lambda>x. fst (f x w1)) xs" "disk w2 = disk w1"
    using Cons.IH [of w1] by simp_all
  moreover have "map (\<lambda>x. fst (f x w1)) xs = map (\<lambda>x. fst (f x w)) xs"
    using same [OF d] by simp
  ultimately show ?case
    by (simp add: t ts d)
qed

lemma requestFont_start_disk: "disk (snd (requestFont_start e opts rs format encoding w)) = disk w"
  by (cases rs)
    (simp_all add: requestFont_start_def getFromCache_def Let_def split: option.splits list.splits)

lemma requestFont_start_same:
  assumes "disk w = disk w'"
  shows "fst (requestFont_start e opts rs format encoding w)
       = fst (requestFont_start e opts rs format encoding w')"
  using assms
  by (cases rs)
    (simp_all add: requestFont_start_def getFromCache_def Let_def split: option.splits list.splits)

lemma fst_requestFont:
  "fst (requestFont e opts rs format encoding w)
     = task_value e (fst (requestFont_start e opts rs format encoding w))"
  by (simp add: requestFont_def split_beta fst_task_resume)

lemma gather_Inr: "gather (map Inr vs) = Inr vs"
  by (induction vs) auto

lemma started_requests:
  "fst (start_all (\<lambda>rs. requestFont_start e opts rs format Utf8) (createRequestStrings opts) w)
     = map (\<lambda>rs. fst (requestFont_start e opts rs format Utf8 w)) (createRequestStrings opts)"
  by (rule start_all_tasks [where f = "\<lambda>rs. requestFont_start e opts rs format Utf8", THEN conjunct1])
    (rule requestFont_start_disk, erule requestFont_start_same)

text \<open>
  Whatever the order in which the responses arrive (the schedule), \<open>requestFontsCSS\<close>
  returns the texts fetched for the request URLs, concatenated in descriptor order with
  nothing between them: whenever each request URL, fetched on its own from the same
  starting world, yields a result, the text is the concatenation of these results.
\<close>

lemma requestFontsCSS_concat_in_order:
  assumes "map (\<lambda>requestString. fst (requestFont e opts requestString format Utf8 w))
             (createRequestStrings opts) = map Inr results"
  shows "fst (requestFontsCSS e opts sched format w) = Inr (concat (map (toString e) results))"
proof -
  let ?ts = "fst (start_all (\<lambda>rs. requestFont_start e opts rs format Utf8) (createRequestStrings opts) w)"
  have vals: "map (task_value e) ?ts = map Inr results"
    using assms by (simp add: started_requests fst_requestFont comp_def)
  then have "\<forall>r\<in>set (map (task_value e) ?ts). \<exists>v. r = Inr v"
    by auto
  then have "fst (await_all e sched ?ts w1) = gather (map Inr results)" for w1
    using fst_await_all [of e ?ts sched w1] vals by simp
  then show ?thesis
    by (simp add: requestFontsCSS_def split_beta gather_Inr)
qed

text \<open>
  C7. The claim asks for the concatenation for every sequence of descriptors, those without
  a family contributing nothing. For such a descriptor \<open>createRequestStrings\<close> yields
  \<open>null\<close>, which \<open>requestFontsCSS\<close> hands to \<open>requestFont\<close> like a URL, and
  \<open>hash.update(null)\<close> throws: with the descriptors Roboto and one without a family the call
  is rejected with a \<open>TypeError\<close> where Node warns about unhandled rejections, and the
  process ends where Node throws on them (the rejection has no handler while the loop waits
  for the style sheet of Roboto); the style sheet of Roboto is not returned.
\<close>

theorem requestFontsCSS_null_request:
  "fst (requestFontsCSS
      \<lparr>sha1_hex = (\<lambda>u. ''00''), cache_file = (\<lambda>k. ''/c/'' @ k), http_get = (\<lambda>u a. Some ''A{}''),
        regexp_match = (\<lambda>source text. Inr None), utf8_text = (\<lambda>bytes. bytes), unhandled = Warn\<rparr>
      \<lparr>fonts = [\<lparr>family = Some ''Roboto'', variants = None, subsets = None\<rparr>,
                \<lparr>family = None, variants = None, subsets = Some [''latin'']\<rparr>],
        formats = [''woff2''], formatAgents = [(''woff2'', ''UA'')], chunkName = ''google-fonts'',
        encode = True, cache = True\<rparr>
      [0] ''woff2'' \<lparr>disk = Map.empty, trace = []\<rparr>)
   = Inl TypeError
   \<and> fst (requestFontsCSS
      \<lparr>sha1_hex = (\<lambda>u. ''00''), cache_file = (\<lambda>k. ''/c/'' @ k), http_get = (\<lambda>u a. Some ''A{}''),
        regexp_match = (\<lambda>source text. Inr None), utf8_text = (\<lambda>bytes. bytes), unhandled = Throw\<rparr>
      \<lparr>fonts = [\<lparr>family = Some ''Roboto'', variants = None, subsets = None\<rparr>,
                \<lparr>family = None, variants = None, subsets = Some [''latin'']\<rparr>],
        formats = [''woff2''], formatAgents = [(''woff2'', ''UA'')], chunkName = ''google-fonts'',
        encode = True, cache = True\<rparr>
      [0] ''woff2'' \<lparr>disk = Map.empty, trace = []\<rparr>)
   = Inl UnhandledRejection"
  by (simp add: requestFontsCSS_def createRequestStrings_def requestString_of_def is_space_def
      requestFont_start_def getFromCache_def saveToCache_def await_all_def complete_def decode_def Let_def)

subsection \<open>Encoding\<close>

lemma lazy_close_Some:
  "lazy_close s = Some (t, r) \<Longrightarrow> s = t @ '')'' @ r \<and> lazy_close (t @ '')'') = Some (t, [])"
  by (induction s arbitrary: t) (auto split: if_splits)

lemma match_at_Some:
  assumes "match_at s = Some (opener, inner, rest)"
  shows "s = opener @ inner @ '')'' @ rest"
    and "match_at (opener @ inner @ '')'') = Some (opener, inner, [])"
    and "inner \<noteq> []" and "length opener = 4"
proof -
  obtain a b c d x s' where s: "s = a # b # c # d # x # s'"
    using assms by (auto simp: match_at_def split: list.splits)
  then obtain t where t: "lazy_close s' = Some (t, rest)" "opener = [a, b, c, d]" "inner = x # t"
    and ok: "(a = CHR ''u'' \<or> a = CHR ''U'') \<and> (b = CHR ''r'' \<or> b = CHR ''R'')
             \<and> (c = CHR ''l'' \<or> c = CHR ''L'') \<and> d = CHR ''('' \<and> \<not> line_terminator x"
    using assms by (auto simp: match_at_def split: if_splits option.splits)
  from lazy_close_Some [OF t(1)] have s': "s' = t @ '')'' @ rest" and lc: "lazy_close (t @ '')'') = Some (t, [])"
    by simp_all
  show "s = opener @ inner @ '')'' @ rest"
    using s s' t by simp
  show "match_at (opener @ inner @ '')'') = Some (opener, inner, [])"
    using t ok lc by (simp add: match_at_def)
  show "inner \<noteq> []" using t by simp
  show "length opener = 4" using t by simp
qed

lemma unscan_scan: "unscan (scan css) = css"
proof (induction css rule: scan.induct)
  case 1
  then show ?case by (simp add: unscan_def)
next
  case (2 c cs)
  show ?case
  proof (cases "match_at (c # cs)")
    case None
    then have "unscan (scan cs) = cs"
      using 2 by simp
    then show ?thesis
      using None by (auto simp: unscan_def split: prod.splits list.splits)
  next
    case (Some m)
    obtain opener inner rest where m: "m = (opener, inner, rest)" by (cases m)
    obtain refs tail where sc: "scan rest = (refs, tail)" by (cases "scan rest")
    have step: "scan (c # cs) = (([], opener, inner) # refs, tail)"
      using Some m sc by simp
    have "unscan (scan rest) = rest"
      using 2 Some m by simp
    then have r: "unscan (refs, tail) = rest"
      by (simp only: sc)
    have eq: "opener @ inner @ '')'' @ rest = c # cs"
      using match_at_Some(1) Some m by simp
    have "unscan (scan (c # cs)) = unscan (([], opener, inner) # refs, tail)"
      by (simp only: step)
    also have "\<dots> = opener @ inner @ '')'' @ unscan (refs, tail)"
      by (simp add: unscan_def)
    also have "\<dots> = c # cs"
      by (simp only: r eq)
    finally show ?thesis .
  qed
qed

lemma scan_refs_match:
  "(gap, opener, inner) \<in> set (fst (scan css)) \<Longrightarrow>
     match_at (opener @ inner @ '')'') = Some (opener, inner, [])"
proof (induction css arbitrary: gap rule: scan.induct)
  case 1
  then show ?case by simp
next
  case (2 c cs)
  show ?case
  proof (cases "match_at (c # cs)")
    case None
    then show ?thesis
      using 2 by (auto split: prod.splits list.splits)
  next
    case (Some m)
    obtain o' i' rest where m: "m = (o', i', rest)" by (cases m)
    show ?thesis
      using 2 Some m match_at_Some(2) [of "c # cs" o' i' rest]
      by (auto split: prod.splits)
  qed
qed

lemma strip_url_match:
  assumes "match_at (opener @ inner @ '')'') = Some (opener, inner, [])"
  shows "strip_url (opener @ inner @ '')'') = inner"
proof -
  have "length opener = 4"
    using match_at_Some(4) [OF assms] .
  then obtain a s where "opener @ inner @ '')'' = a # s"
    by (cases opener) auto
  then have "scan (opener @ inner @ '')'') = ([([], opener, inner)], [])"
    using assms by simp
  then show ?thesis
    by (simp add: strip_url_def)
qed

lemma fontUrls_inner:
  "map strip_url (match_all css) = map (\<lambda>(gap, opener, inner). inner) (fst (scan css))"
  by (auto simp: match_all_def dest!: scan_refs_match strip_url_match)

lemma fontUrls_scan: "fontUrls css = map (\<lambda>(gap, opener, inner). inner) (fst (scan css))"
  by (simp add: fontUrls_def fontUrls_inner)

lemma then_task_value: "task_value e (then_task f t) = map_sum id f (task_value e t)"
  by (cases t) (auto simp: task_value_def split: option.splits)

lemma requestFontFile_start_disk: "disk (snd (requestFontFile_start e opts u w)) = disk w"
  by (simp add: requestFontFile_start_def split_beta requestFont_start_disk split: sum.splits option.splits)

lemma requestFontFile_start_same:
  assumes "disk w = disk w'"
  shows "fst (requestFontFile_start e opts u w) = fst (requestFontFile_start e opts u w')"
  using requestFont_start_same [OF assms]
  by (simp add: requestFontFile_start_def split_beta split: sum.splits option.splits)

lemma fst_requestFontFile:
  "fst (requestFontFile e opts u w) = task_value e (fst (requestFontFile_start e opts u w))"
  by (simp add: requestFontFile_def split_beta fst_task_resume)

lemma started_files:
  "fst (start_all (requestFontFile_start e opts) us w)
     = map (\<lambda>u. fst (requestFontFile_start e opts u w)) us"
  by (rule start_all_tasks [where f = "requestFontFile_start e opts", THEN conjunct1])
    (rule requestFontFile_start_disk, erule requestFontFile_start_same)

lemma started_files_values:
  "map (task_value e) (fst (start_all (requestFontFile_start e opts) us w))
     = map (\<lambda>u. fst (requestFontFile e opts u w)) us"
  by (simp add: started_files fst_requestFontFile comp_def)

lemma fst_requestFontFiles:
  assumes "unhandled e = Warn
    \<or> (\<forall>r\<in>set (map (\<lambda>u. fst (requestFontFile e opts u w)) us). \<exists>v. r = Inr v)"
  shows "fst (requestFontFiles e opts sched us w) = gather (map (\<lambda>u. fst (requestFontFile e opts u w)) us)"
proof -
  let ?ts = "fst (start_all (requestFontFile_start e opts) us w)"
  have "fst (await_all e sched ?ts w1) = gather (map (task_value e) ?ts)" for w1
    using assms by (intro fst_await_all) (simp only: started_files_values)
  then show ?thesis
    by (simp add: requestFontFiles_def split_beta started_files_values)
qed

text \<open>
  What \<open>encodeFonts\<close> does with the list that \<open>requestFontFiles\<close> returns or the error it
  throws.
\<close>

lemma encodeFonts_files:
  assumes "encode opts" and "fontUrls css \<noteq> []"
  shows "fst (encodeFonts e opts sched css w) =
     (case fst (requestFontFiles e opts sched (fontUrls css) w) of
        Inl err \<Rightarrow> Inl err
      | Inr fontsEncoded \<Rightarrow>
          Inr (foldl (\<lambda>css (fontUrl, font). replace_str css fontUrl font) css
                 (zip (fontUrls css) fontsEncoded)))"
proof -
  obtain m ms where ms: "match_all css = m # ms"
    using assms(2) by (cases "match_all css") (auto simp: fontUrls_def)
  then have u: "map strip_url (m # ms) = fontUrls css"
    by (simp add: fontUrls_def)
  obtain r w1 where r: "requestFontFiles e opts sched (fontUrls css) w = (r, w1)"
    by (cases "requestFontFiles e opts sched (fontUrls css) w")
  then show ?thesis
    using assms(1) by (simp add: encodeFonts_def ms u r del: list.map split: sum.splits)
qed

lemma fst_encodeFonts:
  assumes "encode opts" and "fontUrls css \<noteq> []"
    and "unhandled e = Warn
      \<or> (\<forall>r\<in>set (map (\<lambda>u. fst (requestFontFile e opts u w)) (fontUrls css)). \<exists>v. r = Inr v)"
  shows "fst (encodeFonts e opts sched css w) =
     (case gather (map (\<lambda>u. fst (requestFontFile e opts u w)) (fontUrls css)) of
        Inl err \<Rightarrow> Inl err
      | Inr fontsEncoded \<Rightarrow>
          Inr (foldl (\<lambda>css (fontUrl, font). replace_str css fontUrl font) css
                 (zip (fontUrls css) fontsEncoded)))"
  by (simp only: encodeFonts_files [OF assms(1,2)] fst_requestFontFiles [OF assms(3)])

lemma start_all_data:
  "\<forall>u\<in>set us. startsWith u dataPrefix \<Longrightarrow>
     start_all (requestFontFile_start e opts) us w = (map (\<lambda>u. Settled (Inr u)) us, w)"
  by (induction us) (simp_all add: requestFontFile_start_def)

lemma complete_settled:
  assumes "\<forall>t\<in>set ts. \<exists>r. t = Settled r"
  shows "complete e i (ts, w) = (ts, w)"
proof (cases "i < length ts")
  case True
  then obtain r where "ts ! i = Settled r"
    using assms by (metis nth_mem)
  then show ?thesis
    using True by (simp add: complete_def) (metis list_update_id)
next
  case False
  then show ?thesis by (simp add: complete_def)
qed

lemma fulfilled_settled_not_orphaned: "\<not> orphaned (map (\<lambda>u. Settled (Inr u)) us)"
  by (induction us) simp_all

lemma arrive_fulfilled:
  "arrive e sched (map (\<lambda>u. Settled (Inr u)) us, w) = (Some (map (\<lambda>u. Settled (Inr u)) us), w)"
proof (induction sched)
  case Nil
  then show ?case by (simp add: fulfilled_settled_not_orphaned)
next
  case (Cons i sched)
  have "complete e i (map (\<lambda>u. Settled (Inr u)) us, w) = (map (\<lambda>u. Settled (Inr u)) us, w)"
    by (rule complete_settled) auto
  then show ?case
    using Cons by (simp add: fulfilled_settled_not_orphaned)
qed

lemma await_each_fulfilled: "await_each e (map (\<lambda>u. Settled (Inr u)) us) w = (Inr us, w)"
  by (induction us) simp_all

lemma requestFontFiles_data:
  assumes "\<forall>u\<in>set us. startsWith u dataPrefix"
  shows "requestFontFiles e opts sched us w = (Inr us, w)"
  by (simp add: requestFontFiles_def start_all_data [OF assms] await_all_def arrive_fulfilled
      await_each_fulfilled)

lemma find_first_Some: "find_first pat s = Some (p, q) \<Longrightarrow> s = p @ pat @ q"
proof (induction s arbitrary: p)
  case Nil
  then show ?case by (simp split: if_splits)
next
  case (Cons c cs)
  show ?case
  proof (cases "take (length pat) (c # cs) = pat")
    case True
    then have "p = []" "q = drop (length pat) (c # cs)"
      using Cons.prems by simp_all
    then show ?thesis
      using True by (metis append_Nil append_take_drop_id)
  next
    case False
    then obtain p' where "find_first pat cs = Some (p', q)" "p = c # p'"
      using Cons.prems by auto
    then show ?thesis
      using Cons.IH by simp
  qed
qed

lemma expand_plain: "CHR ''$'' \<notin> set rep \<Longrightarrow> expand pre m post rep = rep"
  by (induction pre m post rep rule: expand.induct) auto

lemma replace_str_same: "CHR ''$'' \<notin> set u \<Longrightarrow> replace_str css u u = css"
  by (auto simp: replace_str_def expand_plain split: option.splits dest: find_first_Some)

lemma foldl_replace_same:
  "\<forall>u\<in>set us. CHR ''$'' \<notin> set u \<Longrightarrow>
     foldl (\<lambda>css (fontUrl, font). replace_str css fontUrl font) css (zip us us) = css"
  by (induction us) (simp_all add: replace_str_same)

lemmas run_defs = encodeFonts_def match_all_def strip_url_def match_at_def line_terminator_def
  requestFontFiles_def requestFontFile_start_def requestFont_start_def getFromCache_def saveToCache_def
  startsWith_def dataPrefix_def await_all_def complete_def replace_str_def inferFormat_def alternatives_def
  plain_format_def dataUri_def b64_digit_def decode_def Let_def

text \<open>
  C10. With encoding enabled, a text in which the expression finds no match makes
  \<open>encodeFonts\<close> throw a \<open>TypeError\<close> (\<open>css.match(regex)\<close> is \<open>null\<close>); nothing is fetched
  and the text is not returned.
\<close>

theorem encodeFonts_no_reference_throws:
  assumes "encode opts" and "match_all css = []"
  shows "encodeFonts e opts sched css w = (Inl TypeError, w)"
  using assms by (simp add: encodeFonts_def)

theorem encodeFonts_no_reference_throws_witness:
  "encodeFonts \<lparr>sha1_hex = (\<lambda>u. ''00''), cache_file = (\<lambda>k. k), http_get = (\<lambda>u a. Some ''AB''),
        regexp_match = (\<lambda>source text. Inr None), utf8_text = (\<lambda>bytes. bytes), unhandled = Warn\<rparr>
      \<lparr>fonts = [], formats = [''woff2''], formatAgents = [], chunkName = ''google-fonts'', encode = True, cache = True\<rparr>
      [] [] \<lparr>disk = Map.empty, trace = []\<rparr>
   = (Inl TypeError, \<lparr>disk = Map.empty, trace = []\<rparr>)"
  using encodeFonts_no_reference_throws [of "\<lparr>fonts = [], formats = [''woff2''], formatAgents = [], chunkName = ''google-fonts'', encode = True, cache = True\<rparr>" "[]"]
  by (simp add: match_all_def)

text \<open>
  A text with at least one reference, all of whose references are \<open>"data:application/\<close>
  URIs without a dollar sign, comes back unchanged, and the world is left as it was:
  nothing is read from the disk, written to it or requested from the network.
\<close>

lemma encodeFonts_inlined_unchanged:
  assumes "encode opts" and "fontUrls css \<noteq> []"
    and "\<forall>u\<in>set (fontUrls css). startsWith u dataPrefix \<and> CHR ''$'' \<notin> set u"
  shows "encodeFonts e opts sched css w = (Inr css, w)"
proof -
  obtain m ms where ms: "match_all css = m # ms"
    using assms(2) by (cases "match_all css") (auto simp: fontUrls_def)
  then have u: "map strip_url (m # ms) = fontUrls css"
    by (simp add: fontUrls_def)
  have "requestFontFiles e opts sched (fontUrls css) w = (Inr (fontUrls css), w)"
    using assms(3) by (simp add: requestFontFiles_data)
  moreover have "foldl (\<lambda>css (fontUrl, font). replace_str css fontUrl font) css
      (zip (fontUrls css) (fontUrls css)) = css"
    using assms(3) by (simp add: foldl_replace_same)
  ultimately show ?thesis
    using assms(1) by (simp add: encodeFonts_def ms u del: list.map)
qed

lemma encodeFonts_inlined_unchanged_example:
  "encodeFonts \<lparr>sha1_hex = (\<lambda>u. ''00''), cache_file = (\<lambda>k. ''/c/'' @ k), http_get = (\<lambda>u a. Some ''AB''),
        regexp_match = (\<lambda>source text. Inr None), utf8_text = (\<lambda>bytes. bytes), unhandled = Warn\<rparr>
      \<lparr>fonts = [], formats = [''woff2''], formatAgents = [], chunkName = ''google-fonts'', encode = True, cache = True\<rparr>
      [0] (''a{src:url('' @ [CHR 0x22] @ ''data:application/x-font-woff2;base64,QUI='' @ [CHR 0x22] @ '')}'')
      \<lparr>disk = Map.empty, trace = []\<rparr>
   = (Inr (''a{src:url('' @ [CHR 0x22] @ ''data:application/x-font-woff2;base64,QUI='' @ [CHR 0x22] @ '')}''),
      \<lparr>disk = Map.empty, trace = []\<rparr>)"
  using encodeFonts_inlined_unchanged [of
      "\<lparr>fonts = [], formats = [''woff2''], formatAgents = [], chunkName = ''google-fonts'', encode = True, cache = True\<rparr>"
      "''a{src:url('' @ [CHR 0x22] @ ''data:application/x-font-woff2;base64,QUI='' @ [CHR 0x22] @ '')}''"
      "\<lparr>sha1_hex = (\<lambda>u. ''00''), cache_file = (\<lambda>k. ''/c/'' @ k), http_get = (\<lambda>u a. Some ''AB''),
        regexp_match = (\<lambda>source text. Inr None), utf8_text = (\<lambda>bytes. bytes), unhandled = Warn\<rparr>"
      "[0]" "\<lparr>disk = Map.empty, trace = []\<rparr>"]
  by (simp add: fontUrls_def match_all_def strip_url_def match_at_def line_terminator_def startsWith_def dataPrefix_def)

text \<open>
  C8. The claim asks that a text whose references are all inlined already comes back
  unchanged. \<open>requestFontFile\<close> returns such a reference as it is, and \<open>encodeFonts\<close> then
  replaces the reference by itself, which is meant to change nothing; but \<open>css.replace\<close>
  reads \<open>$$\<close> in the replacement text as one dollar sign, so a data URI that holds \<open>$$\<close>
  comes back with one dollar sign less.
\<close>

theorem encodeFonts_inlined_dollar:
  "fst (encodeFonts \<lparr>sha1_hex = (\<lambda>u. ''00''), cache_file = (\<lambda>k. ''/c/'' @ k), http_get = (\<lambda>u a. Some ''AB''),
        regexp_match = (\<lambda>source text. Inr None), utf8_text = (\<lambda>bytes. bytes), unhandled = Warn\<rparr>
      \<lparr>fonts = [], formats = [''woff2''], formatAgents = [], chunkName = ''google-fonts'', encode = True, cache = True\<rparr>
      [] (''a{src:url('' @ [CHR 0x22] @ ''data:application/x-font-ttf;charset=utf-8,%24$$'' @ [CHR 0x22] @ '')}'')
      \<lparr>disk = Map.empty, trace = []\<rparr>)
   = Inr (''a{src:url('' @ [CHR 0x22] @ ''data:application/x-font-ttf;charset=utf-8,%24$'' @ [CHR 0x22] @ '')}'')"
  by (simp add: run_defs)

subsection \<open>A reference that matches no format\<close>


lemma gather_first_Inl:
  "i < length rs \<Longrightarrow> rs ! i = Inl err \<Longrightarrow> \<forall>j<i. \<exists>v. rs ! j = Inr v \<Longrightarrow> gather rs = Inl err"
proof (induction rs arbitrary: i)
  case Nil
  then show ?case by simp
next
  case (Cons r rs)
  show ?case
  proof (cases i)
    case 0
    then show ?thesis using Cons.prems by simp
  next
    case (Suc k)
    then obtain v where v: "r = Inr v"
      using Cons.prems(3) by fastforce
    have "\<forall>j<k. \<exists>v. rs ! j = Inr v"
      using Cons.prems(3) Suc by fastforce
    then have "gather rs = Inl err"
      using Cons.IH [of k] Cons.prems Suc by simp
    then show ?thesis
      using v by simp
  qed
qed

lemma match_suffix_Some:
  "match_suffix alts s = Some f \<Longrightarrow> f \<in> set alts \<and> (\<exists>p. s = p @ f)"
proof (induction s)
  case Nil
  then show ?case by (auto simp: split: if_splits)
next
  case (Cons c cs)
  show ?case
  proof (cases "c # cs \<in> set alts")
    case True
    then show ?thesis using Cons.prems by (auto simp:)
  next
    case False
    then obtain p where "f \<in> set alts" "cs = p @ f"
      using Cons by auto
    then show ?thesis by (metis append_Cons)
  qed
qed



















subsection \<open>Replacing the references\<close>

lemma b64_digit_plain: "CHR ''$'' \<noteq> b64_digit n"
proof -
  have "b64_digit n \<in> set ''ABCDEFGHIJKLMNOPQRSTUVWXYZabcdefghijklmnopqrstuvwxyz0123456789+/''"
    unfolding b64_digit_def by (rule nth_mem) simp
  then show ?thesis by auto
qed

lemma base64_plain: "CHR ''$'' \<notin> set (base64 s)"
  by (induction s rule: base64.induct) (simp_all add: Let_def b64_digit_plain)

lemma dataUri_plain: "CHR ''$'' \<notin> set f \<Longrightarrow> CHR ''$'' \<notin> set (dataUri f font)"
  by (simp add: dataUri_def base64_plain)

lemma plain_format_dollar: "plain_format f \<Longrightarrow> CHR ''$'' \<notin> set f"
  by (auto simp: plain_format_def list_all_iff)

lemma inferFormat_plain:
  assumes "inferFormat e fmts u = Inr (Some f)" and "\<forall>g\<in>set fmts. plain_format g"
  shows "CHR ''$'' \<notin> set f"
proof -
  have "f \<in> set (alternatives fmts)"
    using assms match_suffix_Some by (simp add: inferFormat_def list_all_iff)
  then have "f = [] \<or> f \<in> set fmts"
    by (auto simp: alternatives_def split: if_splits)
  then show ?thesis
    using assms(2) plain_format_dollar by auto
qed

lemma requestFontFile_plain:
  assumes "fst (requestFontFile e opts u w) = Inr v"
    and "\<forall>g\<in>set (formats opts). plain_format g"
    and "startsWith u dataPrefix \<longrightarrow> CHR ''$'' \<notin> set u"
  shows "CHR ''$'' \<notin> set v"
proof (cases "startsWith u dataPrefix")
  case True
  then have "v = u"
    using assms(1) by (simp add: requestFontFile_def requestFontFile_start_def)
  then show ?thesis
    using True assms(3) by simp
next
  case False
  then obtain f where f: "inferFormat e (formats opts) u = Inr (Some f)"
    using assms(1) by (cases "inferFormat e (formats opts) u")
      (auto simp: requestFontFile_def requestFontFile_start_def split: option.splits)
  have "task_value e (then_task (\<lambda>font. dataUri f (binary_bytes font))
        (fst (requestFont_start e opts (Some u) f Binary w))) = Inr v"
    using assms(1) False f
    by (simp add: fst_requestFontFile requestFontFile_start_def split_beta)
  then obtain body where "v = dataUri f body"
    by (cases "task_value e (fst (requestFont_start e opts (Some u) f Binary w))")
      (auto simp: then_task_value)
  then show ?thesis
    using inferFormat_plain [OF f assms(2)] by (simp add: dataUri_plain)
qed

lemma take_prefix_append:
  assumes "take (length pat) s = pat"
  shows "take (length pat) (s @ r) = pat" and "drop (length pat) (s @ r) = drop (length pat) s @ r"
proof -
  have "length (take (length pat) s) = length pat"
    by (simp only: assms)
  then have "length pat \<le> length s"
    by simp
  then show "take (length pat) (s @ r) = pat" and "drop (length pat) (s @ r) = drop (length pat) s @ r"
    using assms by simp_all
qed

lemma find_first_append:
  "find_first pat s = Some (p, q) \<Longrightarrow> find_first pat (s @ r) = Some (p, q @ r)"
proof (induction s arbitrary: p)
  case Nil
  then have "pat = []" "p = []" "q = []"
    by (simp_all split: if_splits)
  then show ?case
    by (cases r) simp_all
next
  case (Cons c cs)
  show ?case
  proof (cases "take (length pat) (c # cs) = pat")
    case True
    have "p = []" "q = drop (length pat) (c # cs)"
      using True Cons.prems by simp_all
    moreover have "take (length pat) (c # cs @ r) = pat"
      "drop (length pat) (c # cs @ r) = drop (length pat) (c # cs) @ r"
      using take_prefix_append [OF True, of r] by (simp_all only: append_Cons)
    ultimately show ?thesis
      by (simp only: append_Cons find_first.simps simp_thms if_True)
  next
    case False
    then obtain p' where p': "find_first pat cs = Some (p', q)" "p = c # p'"
      using Cons.prems by auto
    then have "cs = p' @ pat @ q"
      using find_first_Some by simp
    then have "length pat \<le> length cs"
      by (metis length_append le_add1 le_add2 le_trans)
    then have "take (length pat) (c # cs @ r) = take (length pat) (c # cs)"
      by (cases "length pat") simp_all
    then have "take (length pat) (c # cs @ r) \<noteq> pat"
      using False by simp
    then show ?thesis
      using Cons.IH [OF p'(1)] p'(2) by (simp only: append_Cons find_first.simps simp_thms if_False option.map prod.case)
  qed
qed

lemma replace_loop:
  assumes "in_turn sofar rvs" and "\<forall>v\<in>snd ` set rvs. CHR ''$'' \<notin> set v"
  shows "foldl (\<lambda>css (fontUrl, font). replace_str css fontUrl font)
           (sofar @ render (map (\<lambda>((gap, opener, inner), v). ((gap, opener, inner), inner)) rvs) tail)
           (map (\<lambda>((gap, opener, inner), v). (inner, v)) rvs)
         = sofar @ render rvs tail"
  using assms
proof (induction rvs arbitrary: sofar)
  case Nil
  then show ?case by simp
next
  case (Cons rv rvs)
  obtain gap opener inner v where rv: "rv = ((gap, opener, inner), v)"
    by (cases rv) auto
  let ?rest = "render (map (\<lambda>((gap, opener, inner), v). ((gap, opener, inner), inner)) rvs) tail"
  have first: "find_first inner (sofar @ gap @ opener @ inner) = Some (sofar @ gap @ opener, [])"
    and later: "in_turn (sofar @ gap @ opener @ v @ '')'') rvs"
    using Cons.prems(1) rv by simp_all
  have plain: "CHR ''$'' \<notin> set v"
    using Cons.prems(2) rv by simp
  have "find_first inner ((sofar @ gap @ opener @ inner) @ ('')'' @ ?rest))
      = Some (sofar @ gap @ opener, [] @ '')'' @ ?rest)"
    using first by (rule find_first_append)
  then have "replace_str (sofar @ gap @ opener @ inner @ '')'' @ ?rest) inner v
      = (sofar @ gap @ opener @ v @ '')'') @ ?rest"
    by (simp add: replace_str_def expand_plain [OF plain])
  moreover have "foldl (\<lambda>css (fontUrl, font). replace_str css fontUrl font)
           ((sofar @ gap @ opener @ v @ '')'') @ ?rest)
           (map (\<lambda>((gap, opener, inner), v). (inner, v)) rvs)
         = (sofar @ gap @ opener @ v @ '')'') @ render rvs tail"
    using Cons.IH [OF later] Cons.prems(2) by simp
  ultimately show ?case
    by (simp add: rv)
qed

lemma render_inner:
  "length vs = length refs \<Longrightarrow>
     render (map (\<lambda>((gap, opener, inner), v). ((gap, opener, inner), inner)) (zip refs vs)) tail
       = unscan (refs, tail)"
proof (induction refs arbitrary: vs)
  case Nil
  then show ?case by (simp add: unscan_def)
next
  case (Cons r refs)
  obtain v vs' where vs: "vs = v # vs'"
    using Cons.prems by (cases vs) auto
  obtain gap opener inner where r: "r = (gap, opener, inner)"
    by (cases r)
  show ?case
    using Cons.IH [of vs'] Cons.prems by (simp add: vs r unscan_def)
qed

text \<open>
  When encoding is enabled and every reference is inlined successfully, each reference of
  the text is replaced by its own inlined value exactly once, and references with the same
  URL receive the same value, provided that each replacement hits its reference
  (\<open>in_turn\<close>), that no reference that is inlined already holds a dollar sign, and that the
  format names hold no special character.
\<close>

lemma encodeFonts_in_turn:
  assumes "encode opts"
    and "\<forall>f\<in>set (formats opts). plain_format f"
    and "scan css = (refs, tail)" and "refs \<noteq> []"
    and "map (\<lambda>u. fst (requestFontFile e opts u w)) (fontUrls css) = map Inr values"
    and "\<forall>u\<in>set (fontUrls css). startsWith u dataPrefix \<longrightarrow> CHR ''$'' \<notin> set u"
    and "in_turn [] (zip refs values)"
  shows "fst (encodeFonts e opts sched css w) = Inr (render (zip refs values) tail)
    \<and> (\<forall>i<length refs. \<forall>j<length refs.
          fontUrls css ! i = fontUrls css ! j \<longrightarrow> values ! i = values ! j)"
proof -
  have urls: "fontUrls css = map (\<lambda>(gap, opener, inner). inner) refs"
    using assms(3) by (simp add: fontUrls_scan)
  then have ne: "fontUrls css \<noteq> []"
    using assms(4) by simp
  have len: "length values = length refs"
    using assms(5) urls by (metis length_map)
  have nth: "fst (requestFontFile e opts (fontUrls css ! i) w) = Inr (values ! i)"
    if "i < length refs" for i
  proof -
    have "map (\<lambda>u. fst (requestFontFile e opts u w)) (fontUrls css) ! i = map Inr values ! i"
      using assms(5) by simp
    then show ?thesis
      using that len urls by simp
  qed
  have plain: "\<forall>v\<in>snd ` set (zip refs values). CHR ''$'' \<notin> set v"
  proof
    fix v
    assume "v \<in> snd ` set (zip refs values)"
    then have "v \<in> set values"
      by (auto dest: set_zip_rightD)
    then obtain i where i: "i < length refs" "v = values ! i"
      using len by (metis in_set_conv_nth)
    then have "fontUrls css ! i \<in> set (fontUrls css)"
      using urls by simp
    then show "CHR ''$'' \<notin> set v"
      using requestFontFile_plain [OF nth [OF i(1)] assms(2)] assms(6) i(2) by blast
  qed
  have "css = unscan (refs, tail)"
    using unscan_scan [of css] assms(3) by simp
  then have css: "css = [] @ render (map (\<lambda>((gap, opener, inner), v). ((gap, opener, inner), inner)) (zip refs values)) tail"
    using render_inner [OF len] by simp
  have zip: "zip (fontUrls css) values = map (\<lambda>((gap, opener, inner), v). (inner, v)) (zip refs values)"
    by (simp add: urls zip_map1 split_beta)
  have "foldl (\<lambda>css (fontUrl, font). replace_str css fontUrl font) css (zip (fontUrls css) values)
      = [] @ render (zip refs values) tail"
    unfolding zip by (subst css) (rule replace_loop [OF assms(7) plain])
  moreover have "gather (map (\<lambda>u. fst (requestFontFile e opts u w)) (fontUrls css)) = Inr values"
    by (simp only: assms(5) gather_Inr)
  moreover have "\<forall>r\<in>set (map (\<lambda>u. fst (requestFontFile e opts u w)) (fontUrls css)). \<exists>v. r = Inr v"
    by (simp only: assms(5)) auto
  ultimately have "fst (encodeFonts e opts sched css w) = Inr (render (zip refs values) tail)"
    by (simp add: fst_encodeFonts [OF assms(1) ne])
  moreover have "values ! i = values ! j"
    if "i < length refs" "j < length refs" "fontUrls css ! i = fontUrls css ! j" for i j
    using nth [OF that(1)] nth [OF that(2)] that(3) by simp
  ultimately show ?thesis
    by blast
qed

lemma encodeFonts_in_turn_example:
  "fst (encodeFonts \<lparr>sha1_hex = (\<lambda>u. ''00''), cache_file = (\<lambda>k. ''/c/'' @ k), http_get = (\<lambda>u a. Some ''AB''),
        regexp_match = (\<lambda>source text. Inr None), utf8_text = (\<lambda>bytes. bytes), unhandled = Warn\<rparr>
      \<lparr>fonts = [], formats = [''woff'', ''woff2''], formatAgents = [], chunkName = ''google-fonts'', encode = True, cache = True\<rparr>
      [1, 0] ''a{url(http://x/f.woff2)} b{url(http://x/f.woff2)}'' \<lparr>disk = Map.empty, trace = []\<rparr>)
   = Inr (''a{url('' @ [CHR 0x22] @ ''data:application/x-font-woff2;base64,QUI='' @ [CHR 0x22]
          @ '')} b{url('' @ [CHR 0x22] @ ''data:application/x-font-woff2;base64,QUI='' @ [CHR 0x22] @ '')}'')"
  using encodeFonts_in_turn [of
      "\<lparr>fonts = [], formats = [''woff'', ''woff2''], formatAgents = [], chunkName = ''google-fonts'', encode = True, cache = True\<rparr>"
      "''a{url(http://x/f.woff2)} b{url(http://x/f.woff2)}''"
      "[(''a{'', ''url('', ''http://x/f.woff2''), (''} b{'', ''url('', ''http://x/f.woff2'')]" "''}''"
      "\<lparr>sha1_hex = (\<lambda>u. ''00''), cache_file = (\<lambda>k. ''/c/'' @ k), http_get = (\<lambda>u a. Some ''AB''),
        regexp_match = (\<lambda>source text. Inr None), utf8_text = (\<lambda>bytes. bytes), unhandled = Warn\<rparr>"
      "\<lparr>disk = Map.empty, trace = []\<rparr>"
      "[[CHR 0x22] @ ''data:application/x-font-woff2;base64,QUI='' @ [CHR 0x22],
        [CHR 0x22] @ ''data:application/x-font-woff2;base64,QUI='' @ [CHR 0x22]]"
      "[1, 0]"]
  by (simp add: fontUrls_def match_all_def strip_url_def match_at_def line_terminator_def startsWith_def
      dataPrefix_def plain_format_def requestFontFile_def requestFontFile_start_def
      requestFont_start_def getFromCache_def inferFormat_def alternatives_def Let_def dataUri_def b64_digit_def)

text \<open>
  C1. The claim asks that every reference to a URL that occurs more than once is replaced
  by the inlined value, none left remote and none replaced twice. The loop of
  \<open>encodeFonts\<close> puts the value of reference \<open>i\<close> with \<open>css.replace(fontUrls[i], font)\<close>,
  which replaces the first occurrence of the URL in the text as the replacements before
  left it. When the URL \<open>font-woff2\<close> is referenced twice, the second replacement hits the
  \<open>font-woff2\<close> inside the data URI that the first one inserted: the first reference is
  replaced twice and the second one is left remote.
\<close>

theorem encodeFonts_duplicate_url:
  "fst (encodeFonts \<lparr>sha1_hex = (\<lambda>u. ''00''), cache_file = (\<lambda>k. ''/c/'' @ k), http_get = (\<lambda>u a. Some ''AB''),
        regexp_match = (\<lambda>source text. Inr None), utf8_text = (\<lambda>bytes. bytes), unhandled = Warn\<rparr>
      \<lparr>fonts = [], formats = [''woff'', ''woff2''], formatAgents = [], chunkName = ''google-fonts'', encode = True, cache = True\<rparr>
      [] ''a{src:url(font-woff2)} b{src:url(font-woff2)}'' \<lparr>disk = Map.empty, trace = []\<rparr>)
   = Inr (''a{src:url('' @ [CHR 0x22] @ ''data:application/x-'' @ [CHR 0x22] @ ''data:application/x-font-woff2;base64,QUI=''
           @ [CHR 0x22] @ '';base64,QUI='' @ [CHR 0x22] @ '')} b{src:url(font-woff2)}'')"
  by (simp add: run_defs)

end
